theory Spec2Isabelle
  imports Main "HOL-Library.AList" "HOL-Library.Sublist"
begin

section \<open>Values exchanged with the model API and the tool process\<close>

text \<open>
  The client is a TypeScript program with three source functions
  (\<^verbatim>\<open>processQuery\<close> in handlers.ts, \<^verbatim>\<open>chatLoop\<close>/\<^verbatim>\<open>cleanup\<close> in chat-loop.ts,
  \<^verbatim>\<open>connectToServer\<close> in connection.ts) and the module body of index.ts.
  JSON payloads that the client only forwards (tool arguments, tool results, schemas) are
  values of a type parameter \<open>'j\<close>; the client never inspects them.

  A thrown JavaScript value is either an instance of \<^verbatim>\<open>Error\<close>, of which the client
  reads only \<^verbatim>\<open>message\<close>, or any other value.
\<close>

datatype thrown = ErrorObj string | NonError

text \<open>
  A plain JavaScript object: its own properties in insertion order. The value \<open>None\<close>
  stands for \<^verbatim>\<open>undefined\<close>; reading a property that is not there gives
  \<^verbatim>\<open>undefined\<close> as well.
\<close>

type_synonym 'j js_object = "(string \<times> 'j option) list"

definition read_prop :: "'j js_object \<Rightarrow> string \<Rightarrow> 'j option" where
  "read_prop obj k = (case map_of obj k of None \<Rightarrow> None | Some v \<Rightarrow> v)"

definition keys :: "'j js_object \<Rightarrow> string list" where
  "keys obj = map fst obj"

datatype role = User | Assistant

text \<open>
  The content of a \<^verbatim>\<open>MessageParam\<close>: the query string of the first turn, or whatever
  \<^verbatim>\<open>result.content\<close> of a tool call was (the source casts it to string without
  converting it).
\<close>

datatype 'j turn_content = QueryText string | ResultContent 'j

record 'j message_param =
  role :: role
  content :: "'j turn_content"

text \<open>
  A content item of a model response, by its \<^verbatim>\<open>type\<close> tag. \<open>ToolUse\<close> carries
  \<^verbatim>\<open>name\<close> and \<^verbatim>\<open>input\<close>; \<open>OtherBlock\<close> is any item whose tag is neither
  \<^verbatim>\<open>"text"\<close> nor \<^verbatim>\<open>"tool_use"\<close>. A response is modelled by its \<^verbatim>\<open>content\<close> array, the
  only field the client reads, and a tool call result by its \<^verbatim>\<open>content\<close> field.
\<close>

datatype 'j content_block = Text string | ToolUse string 'j | OtherBlock

type_synonym 'j api_response = "'j content_block list"

text \<open>The argument of \<^verbatim>\<open>anthropic.messages.create\<close>; \<open>p_tools = None\<close> when the key is absent.\<close>

record 'j create_params =
  p_model :: "string option"
  p_max_tokens :: nat
  p_messages :: "'j message_param list"
  p_tools :: "'j js_object list option"

text \<open>The argument of \<^verbatim>\<open>new StdioClientTransport\<close>.\<close>

record transport_params =
  command :: string
  args :: "string list"
  env :: "(string \<times> string option) list"

section \<open>Effects: the trace of interactions and the external world\<close>

text \<open>
  What is written to the console is kept unrendered: \<open>Cat\<close> is string concatenation,
  the other constructors name the value that JavaScript would convert to text.
\<close>

datatype 'j logged =
    Str string
  | Names "'j option list"
  | JsonMessages "'j message_param list"
  | JsonResponse "'j api_response"
  | Caught thrown
  | Cat "'j logged" "'j logged"

text \<open>
  Every interaction with the outside is an event; calls that await an answer record the
  answer (\<open>Inl\<close> for a rejection).
\<close>

datatype 'j event =
    MessagesCreate "'j create_params" "thrown + 'j api_response"
  | CallTool string 'j "thrown + 'j"
  | NewTransport transport_params
  | McpConnect transport_params "thrown + unit"
  | ListTools "thrown + 'j js_object list"
  | McpClose "thrown + unit"
  | RlCreate
  | RlQuestion string "string option"
  | RlClose
  | ConsoleLog "'j logged list"
  | ConsoleError "'j logged list"
  | ProcessExit nat

text \<open>
  The collaborators outside the repository: the model API client, the MCP client, and the
  host (\<^verbatim>\<open>process.env\<close>, \<^verbatim>\<open>process.platform\<close>, \<^verbatim>\<open>process.execPath\<close>,
  \<^verbatim>\<open>JSON.stringify\<close> as used in a template literal). Their answers may depend on an
  arbitrary world state \<open>'w\<close> that they update, so any behaviour is covered, including
  calls that throw.
\<close>

record ('w, 'j) externals =
  create :: "'w \<Rightarrow> 'j create_params \<Rightarrow> (thrown + 'j api_response) \<times> 'w"
  callTool :: "'w \<Rightarrow> string \<Rightarrow> 'j \<Rightarrow> (thrown + 'j) \<times> 'w"
  connect :: "'w \<Rightarrow> transport_params \<Rightarrow> (thrown + unit) \<times> 'w"
  listTools :: "'w \<Rightarrow> (thrown + 'j js_object list) \<times> 'w"
  close :: "'w \<Rightarrow> (thrown + unit) \<times> 'w"
  stringify :: "'j \<Rightarrow> string"
  process_env :: "(string \<times> string) list"
  platform :: string
  execPath :: string

record ('w, 'j) io =
  world :: 'w
  trace :: "'j event list"

definition emit :: "'j event \<Rightarrow> ('w, 'j) io \<Rightarrow> ('w, 'j) io" where
  "emit e s = s\<lparr>trace := trace s @ [e]\<rparr>"

text \<open>The fields of \<^verbatim>\<open>MCPClient\<close> that the repository's code assigns.\<close>

record 'j client =
  transport :: "transport_params option"
  tools :: "'j js_object list"

section \<open>handlers.ts: processQuery\<close>

definition nl :: char where
  "nl = CHR 0x0A"

text \<open>\<^verbatim>\<open>Array.prototype.join\<close> on an array of strings.\<close>

fun join :: "string \<Rightarrow> string list \<Rightarrow> string" where
  "join sep [] = []"
| "join sep [x] = x"
| "join sep (x # y # ys) = x @ sep @ join sep (y # ys)"

text \<open>The local variables \<^verbatim>\<open>messages\<close> and \<^verbatim>\<open>finalText\<close>.\<close>

record 'j locals =
  messages :: "'j message_param list"
  finalText :: "string list"

text \<open>
  Reading \<^verbatim>\<open>followUpResponse.content[0].type\<close> when the array is empty throws a
  \<^verbatim>\<open>TypeError\<close>, which is an \<^verbatim>\<open>Error\<close>; this is its message on V8.
\<close>

definition undefined_type_message :: string where
  "undefined_type_message =
     ''Cannot read properties of undefined (reading '' @ [CHR 0x27] @ ''type'' @ [CHR 0x27] @ '')''"

definition calling_tool_line :: "('w, 'j) externals \<Rightarrow> string \<Rightarrow> 'j \<Rightarrow> string" where
  "calling_tool_line ext toolName toolArgs =
     ''[Calling tool '' @ toolName @ '' with args '' @ stringify ext toolArgs @ '']''"

text \<open>
  The object literal passed to \<^verbatim>\<open>messages.create\<close>, written twice in the source:
  with the key \<^verbatim>\<open>tools\<close> in the first call, without it in the follow-up call.
\<close>

definition request ::
  "('w, 'j) externals \<Rightarrow> 'j message_param list \<Rightarrow> 'j js_object list option \<Rightarrow> 'j create_params" where
  "request ext msgs tls =
     \<lparr>p_model = map_of (process_env ext) ''ANTHROPIC_MODEL'', p_max_tokens = 1000,
      p_messages = msgs, p_tools = tls\<rparr>"

text \<open>
  The \<^verbatim>\<open>tool_use\<close> branch of the loop body (lines 63 to 97). The first component of the
  result is the value thrown, if any.
\<close>

definition tool_use_branch ::
  "('w, 'j) externals \<Rightarrow> string \<Rightarrow> 'j \<Rightarrow> 'j locals \<Rightarrow> ('w, 'j) io
     \<Rightarrow> thrown option \<times> 'j locals \<times> ('w, 'j) io" where
  "tool_use_branch ext toolName toolArgs L s =
     (case callTool ext (world s) toolName toolArgs of
        (Inl e, w1) \<Rightarrow> (Some e, L, emit (CallTool toolName toolArgs (Inl e)) (s\<lparr>world := w1\<rparr>))
      | (Inr result, w1) \<Rightarrow>
          (let s1 = emit (CallTool toolName toolArgs (Inr result)) (s\<lparr>world := w1\<rparr>);
               L1 = L\<lparr>finalText := finalText L @ [calling_tool_line ext toolName toolArgs]\<rparr>;
               L2 = L1\<lparr>messages := messages L1 @ [\<lparr>role = User, content = ResultContent result\<rparr>]\<rparr>;
               params = request ext (messages L2) None
           in case create ext (world s1) params of
                (Inl e, w2) \<Rightarrow>
                  (Some e, L2, emit (MessagesCreate params (Inl e)) (s1\<lparr>world := w2\<rparr>))
              | (Inr followUpResponse, w2) \<Rightarrow>
                  (let s2 = emit (MessagesCreate params (Inr followUpResponse)) (s1\<lparr>world := w2\<rparr>)
                   in case followUpResponse of
                        [] \<Rightarrow> (Some (ErrorObj undefined_type_message), L2, s2)
                      | c # _ \<Rightarrow>
                          (None,
                           L2\<lparr>finalText := finalText L2 @ [case c of Text t \<Rightarrow> t | _ \<Rightarrow> []]\<rparr>,
                           s2))))"

text \<open>The \<^verbatim>\<open>for (const content of response.content)\<close> loop; a throw leaves it.\<close>

fun content_loop ::
  "('w, 'j) externals \<Rightarrow> 'j content_block list \<Rightarrow> 'j locals \<Rightarrow> ('w, 'j) io
     \<Rightarrow> thrown option \<times> 'j locals \<times> ('w, 'j) io" where
  "content_loop ext [] L s = (None, L, s)"
| "content_loop ext (Text t # cs) L s =
     content_loop ext cs (L\<lparr>finalText := finalText L @ [t]\<rparr>) s"
| "content_loop ext (ToolUse toolName toolArgs # cs) L s =
     (case tool_use_branch ext toolName toolArgs L s of
        (Some e, L', s') \<Rightarrow> (Some e, L', s')
      | (None, L', s') \<Rightarrow> content_loop ext cs L' s')"
| "content_loop ext (OtherBlock # cs) L s = content_loop ext cs L s"

text \<open>The body of the \<^verbatim>\<open>try\<close> block (lines 39 to 102).\<close>

definition processQuery_try ::
  "('w, 'j) externals \<Rightarrow> 'j client \<Rightarrow> 'j locals \<Rightarrow> ('w, 'j) io
     \<Rightarrow> (thrown + string) \<times> 'j locals \<times> ('w, 'j) io" where
  "processQuery_try ext this L s =
     (let params = request ext (messages L) (Some (tools this))
      in case create ext (world s) params of
           (Inl e, w1) \<Rightarrow> (Inl e, L, emit (MessagesCreate params (Inl e)) (s\<lparr>world := w1\<rparr>))
         | (Inr response, w1) \<Rightarrow>
             (let s1 = emit (MessagesCreate params (Inr response)) (s\<lparr>world := w1\<rparr>);
                  s2 = emit (ConsoleLog [Str ''The response from the anthropic api is:'',
                                         JsonResponse response]) s1
              in case content_loop ext response (L\<lparr>finalText := []\<rparr>) s2 of
                   (Some e, L', s') \<Rightarrow> (Inl e, L', s')
                 | (None, L', s') \<Rightarrow> (Inr (join [nl] (finalText L')), L', s')))"

text \<open>The text built in the \<^verbatim>\<open>catch\<close> block.\<close>

definition error_text :: "thrown \<Rightarrow> string" where
  "error_text e =
     ''Error: '' @ (case e of ErrorObj m \<Rightarrow> m | NonError \<Rightarrow> ''Unknown error occurred'')"

text \<open>
  Lines 24 to 36, before the \<^verbatim>\<open>try\<close>: two log lines and the new \<^verbatim>\<open>messages\<close> array.
  (\<^verbatim>\<open>finalText\<close> is declared inside the \<^verbatim>\<open>try\<close>, where it is set to the empty array.)
\<close>

definition processQuery_entry ::
  "'j client \<Rightarrow> string \<Rightarrow> ('w, 'j) io \<Rightarrow> 'j locals \<times> ('w, 'j) io" where
  "processQuery_entry this query s =
     (let s0 = emit (ConsoleLog [Str (''In processQuery: '' @ query),
                                 Cat (Str ''tools: '')
                                     (Names (map (\<lambda>tool. read_prop tool ''name'') (tools this)))]) s;
          L0 = \<lparr>messages = [\<lparr>role = User, content = QueryText query\<rparr>], finalText = []\<rparr>;
          s1 = emit (ConsoleLog [Cat (Str ''The messages array is: '')
                                     (JsonMessages (messages L0))]) s0
      in (L0, s1))"

text \<open>The function up to its \<^verbatim>\<open>catch\<close>: \<open>Inl\<close> is a value thrown inside the \<^verbatim>\<open>try\<close>.\<close>

definition processQuery_body ::
  "('w, 'j) externals \<Rightarrow> 'j client \<Rightarrow> string \<Rightarrow> ('w, 'j) io
     \<Rightarrow> (thrown + string) \<times> 'j locals \<times> ('w, 'j) io" where
  "processQuery_body ext this query s =
     (case processQuery_entry this query s of (L0, s1) \<Rightarrow> processQuery_try ext this L0 s1)"

text \<open>
  The whole function, returning the local variables as they are on exit as well, so that
  statements about the conversation sequence can be made.
\<close>

definition processQuery_run ::
  "('w, 'j) externals \<Rightarrow> 'j client \<Rightarrow> string \<Rightarrow> ('w, 'j) io
     \<Rightarrow> string \<times> 'j locals \<times> ('w, 'j) io" where
  "processQuery_run ext this query s =
     (case processQuery_body ext this query s of
        (Inr out, L, s') \<Rightarrow> (out, L, s')
      | (Inl e, L, s') \<Rightarrow>
          (error_text e, L,
           emit (ConsoleError [Str ''Error calling Anthropic API:'', Caught e]) s'))"

definition processQuery ::
  "('w, 'j) externals \<Rightarrow> 'j client \<Rightarrow> string \<Rightarrow> ('w, 'j) io \<Rightarrow> string \<times> ('w, 'j) io" where
  "processQuery ext this query s =
     (case processQuery_run ext this query s of (out, L, s') \<Rightarrow> (out, s'))"

section \<open>chat-loop.ts: chatLoop and cleanup\<close>

text \<open>
  \<^verbatim>\<open>String.prototype.toLowerCase\<close>, on a string of bytes: the letters A to Z are mapped to
  a to z. (JavaScript also lowers letters outside ASCII; none of them becomes one of the
  letters of \<^verbatim>\<open>quit\<close>, so the comparison with \<^verbatim>\<open>"quit"\<close> is the same.)
\<close>

definition lower_char :: "char \<Rightarrow> char" where
  "lower_char c =
     (let n = (of_char c :: nat) in if 65 \<le> n \<and> n \<le> 90 then char_of (n + 32) else c)"

definition toLowerCase :: "string \<Rightarrow> string" where
  "toLowerCase s = map lower_char s"

definition query_prompt :: string where
  "query_prompt = nl # ''Query: ''"

text \<open>
  How the \<^verbatim>\<open>while (true)\<close> loop is left: by \<^verbatim>\<open>break\<close>, or not at all, when the operator
  has typed nothing more and \<^verbatim>\<open>rl.question\<close> stays pending.
\<close>

datatype loop_exit = Break | AwaitingInput

text \<open>
  Lines 20 to 24: what an iteration does with a line that is not the exit word. The raw
  line goes to \<^verbatim>\<open>processQuery\<close> and the returned string is printed.
\<close>

definition chat_turn ::
  "('w, 'j) externals \<Rightarrow> 'j client \<Rightarrow> string \<Rightarrow> ('w, 'j) io \<Rightarrow> ('w, 'j) io" where
  "chat_turn ext this message s1 =
     (let s2 = emit (ConsoleLog [Str (''The message is: '' @ message)]) s1
      in case processQuery ext this message s2 of
           (response, s3) \<Rightarrow>
             (let s4 = emit (ConsoleLog [Str (nl # response)]) s3;
                  s5 = emit (ConsoleLog [Str (''The response is: '' @ response)]) s4
              in s5))"

text \<open>
  The loop, driven by the lines the operator types; each iteration consumes one line.
\<close>

fun chatLoop_while ::
  "('w, 'j) externals \<Rightarrow> 'j client \<Rightarrow> string list \<Rightarrow> ('w, 'j) io \<Rightarrow> loop_exit \<times> ('w, 'j) io" where
  "chatLoop_while ext this [] s = (AwaitingInput, emit (RlQuestion query_prompt None) s)"
| "chatLoop_while ext this (message # rest) s =
     (let s1 = emit (RlQuestion query_prompt (Some message)) s
      in if toLowerCase message = ''quit'' then (Break, s1)
         else chatLoop_while ext this rest (chat_turn ext this message s1))"

definition chatLoop ::
  "('w, 'j) externals \<Rightarrow> 'j client \<Rightarrow> string list \<Rightarrow> ('w, 'j) io \<Rightarrow> loop_exit \<times> ('w, 'j) io" where
  "chatLoop ext this inputs s =
     (let s0 = emit RlCreate s;
          s1 = emit (ConsoleLog [Str (nl # ''MCP Client Started!'')]) s0;
          s2 = emit (ConsoleLog [Str (''Type your queries or '' @ [CHR 0x27] @ ''quit''
                                        @ [CHR 0x27] @ '' to exit.'')]) s1
      in case chatLoop_while ext this inputs s2 of
           (Break, s3) \<Rightarrow> (Break, emit RlClose s3)
         | (AwaitingInput, s3) \<Rightarrow> (AwaitingInput, s3))"

definition cleanup :: "('w, 'j) externals \<Rightarrow> ('w, 'j) io \<Rightarrow> (thrown + unit) \<times> ('w, 'j) io" where
  "cleanup ext s = (case close ext (world s) of (r, w) \<Rightarrow> (r, emit (McpClose r) (s\<lparr>world := w\<rparr>)))"

text \<open>
  The exit test in the words of the specification (trimmed, case-folded input equals
  \<^verbatim>\<open>quit\<close>), to compare with the test of the source. \<^verbatim>\<open>String.prototype.trim\<close> removes
  white space at both ends; on a string of bytes that is tab, line feed, vertical tab, form
  feed, carriage return and space.
\<close>

definition is_space :: "char \<Rightarrow> bool" where
  "is_space c = (of_char c \<in> {9, 10, 11, 12, 13, 32 :: nat})"

definition trim :: "string \<Rightarrow> string" where
  "trim s = rev (dropWhile is_space (rev (dropWhile is_space s)))"

definition spec_is_quit :: "string \<Rightarrow> bool" where
  "spec_is_quit message = (toLowerCase (trim message) = ''quit'')"

section \<open>connection.ts: connectToServer\<close>

text \<open>\<^verbatim>\<open>String.prototype.endsWith\<close>.\<close>

definition endsWith :: "string \<Rightarrow> string \<Rightarrow> bool" where
  "endsWith str searchString =
     (length searchString \<le> length str
      \<and> drop (length str - length searchString) str = searchString)"

text \<open>The callback of \<^verbatim>\<open>toolsResult.tools.map\<close> (lines 33 to 39): an object literal with three keys.\<close>

definition tool_descriptor :: "'j js_object \<Rightarrow> 'j js_object" where
  "tool_descriptor tool =
     [(''name'', read_prop tool ''name''),
      (''description'', read_prop tool ''description''),
      (''input_schema'', read_prop tool ''inputSchema'')]"

text \<open>
  \<^verbatim>\<open>{...process.env, ANTHROPIC_MODEL: process.env.ANTHROPIC_MODEL}\<close>: the spread properties,
  then the key set to the value read, which is \<^verbatim>\<open>undefined\<close> when the variable is not set.
\<close>

definition transport_env :: "(string \<times> string) list \<Rightarrow> (string \<times> string option) list" where
  "transport_env penv =
     AList.update ''ANTHROPIC_MODEL'' (map_of penv ''ANTHROPIC_MODEL'')
       (map (\<lambda>(k, v). (k, Some v)) penv)"

text \<open>The body of the \<^verbatim>\<open>try\<close> block (lines 10 to 44).\<close>

definition connectToServer_try ::
  "('w, 'j) externals \<Rightarrow> 'j client \<Rightarrow> string \<Rightarrow> ('w, 'j) io
     \<Rightarrow> (thrown + unit) \<times> 'j client \<times> ('w, 'j) io" where
  "connectToServer_try ext this serverScriptPath s =
     (let isJs = endsWith serverScriptPath ''.js'';
          isPy = endsWith serverScriptPath ''.py''
      in if \<not> isJs \<and> \<not> isPy
         then (Inl (ErrorObj ''Server script must be a .js or .py file''), this, s)
         else
          (let command = (if isPy then (if platform ext = ''win32'' then ''python'' else ''python3'')
                          else execPath ext);
               tp = \<lparr>command = command, args = [serverScriptPath],
                     env = transport_env (process_env ext)\<rparr>;
               this1 = this\<lparr>transport := Some tp\<rparr>;
               s1 = emit (NewTransport tp) s
           in case connect ext (world s1) tp of
                (Inl e, w1) \<Rightarrow> (Inl e, this1, emit (McpConnect tp (Inl e)) (s1\<lparr>world := w1\<rparr>))
              | (Inr u, w1) \<Rightarrow>
                  (let s2 = emit (McpConnect tp (Inr u)) (s1\<lparr>world := w1\<rparr>)
                   in case listTools ext (world s2) of
                        (Inl e, w2) \<Rightarrow> (Inl e, this1, emit (ListTools (Inl e)) (s2\<lparr>world := w2\<rparr>))
                      | (Inr toolsResult, w2) \<Rightarrow>
                          (let s3 = emit (ListTools (Inr toolsResult)) (s2\<lparr>world := w2\<rparr>);
                               this2 = this1\<lparr>tools := map tool_descriptor toolsResult\<rparr>;
                               s4 = emit (ConsoleLog
                                            [Str ''Connected to server with tools:'',
                                             Names (map (\<lambda>tool. read_prop tool ''name'')
                                                        (tools this2))]) s3
                           in (Inr (), this2, s4)))))"

text \<open>With the \<^verbatim>\<open>catch\<close> block, which logs and throws the same value again.\<close>

definition connectToServer ::
  "('w, 'j) externals \<Rightarrow> 'j client \<Rightarrow> string \<Rightarrow> ('w, 'j) io
     \<Rightarrow> (thrown + unit) \<times> 'j client \<times> ('w, 'j) io" where
  "connectToServer ext this serverScriptPath s =
     (case connectToServer_try ext this serverScriptPath s of
        (Inl e, this', s') \<Rightarrow>
          (Inl e, this',
           emit (ConsoleError [Str ''Failed to connect to MCP server:'', Caught e]) s')
      | (Inr u, this', s') \<Rightarrow> (Inr u, this', s'))"

section \<open>index.ts: the module body and main\<close>

text \<open>
  How the process ends: \<^verbatim>\<open>main\<close> returns, \<^verbatim>\<open>process.exit\<close> is called, a thrown value is
  not caught by anything, or the process stays waiting for operator input.
\<close>

datatype outcome = Returned | Exit nat | Uncaught thrown | Waiting

text \<open>The \<^verbatim>\<open>finally\<close> block of \<^verbatim>\<open>main\<close>; \<^verbatim>\<open>process.exit\<close> discards a pending exception.\<close>

definition main_finally :: "('w, 'j) externals \<Rightarrow> ('w, 'j) io \<Rightarrow> outcome \<times> ('w, 'j) io" where
  "main_finally ext s =
     (case cleanup ext s of
        (Inl e, s') \<Rightarrow> (Uncaught e, s')
      | (Inr u, s') \<Rightarrow> (Exit 0, emit (ProcessExit 0) s'))"

definition main ::
  "('w, 'j) externals \<Rightarrow> string list \<Rightarrow> string list \<Rightarrow> ('w, 'j) io \<Rightarrow> outcome \<times> ('w, 'j) io" where
  "main ext argv inputs s =
     (if length argv < 3
      then (Returned, emit (ConsoleLog [Str ''Usage: node index.ts <path_to_server_script>'']) s)
      else
       (let mcpClient = \<lparr>transport = None, tools = []\<rparr>
        in case connectToServer ext mcpClient (argv ! 2) s of
             (Inl e, this1, s1) \<Rightarrow> main_finally ext s1
           | (Inr u, this1, s1) \<Rightarrow>
               (case chatLoop ext this1 inputs s1 of
                  (AwaitingInput, s2) \<Rightarrow> (Waiting, s2)
                | (Break, s2) \<Rightarrow> main_finally ext s2)))"

text \<open>\<^verbatim>\<open>!x\<close> for \<open>x\<close> a string or \<^verbatim>\<open>undefined\<close>.\<close>

definition falsy :: "string option \<Rightarrow> bool" where
  "falsy x = (case x of None \<Rightarrow> True | Some v \<Rightarrow> v = [])"

text \<open>
  The module body: the credential check (lines 136 to 139), then the call of \<^verbatim>\<open>main\<close>.
  \<open>process_env\<close> is the environment after \<^verbatim>\<open>dotenv.config()\<close>.
\<close>

definition index_module ::
  "('w, 'j) externals \<Rightarrow> string list \<Rightarrow> string list \<Rightarrow> ('w, 'j) io \<Rightarrow> outcome \<times> ('w, 'j) io" where
  "index_module ext argv inputs s =
     (let ANTHROPIC_API_KEY = map_of (process_env ext) ''ANTHROPIC_API_KEY''
      in if falsy ANTHROPIC_API_KEY
         then (Uncaught (ErrorObj ''ANTHROPIC_API_KEY is not set''), s)
         else main ext argv inputs s)"

section \<open>Reading a trace\<close>

text \<open>The events a run has added to the trace.\<close>

definition events_since :: "('w, 'j) io \<Rightarrow> ('w, 'j) io \<Rightarrow> 'j event list" where
  "events_since s s' = drop (length (trace s)) (trace s')"

text \<open>
  The calls to the model API and to the tool channel in a trace, in order: a model call
  with the tool catalog it carried (\<open>None\<close>: no catalog), a tool call with name and
  arguments.
\<close>

datatype 'j call = ModelCall "'j js_object list option" | ToolCall string 'j

fun calls_of :: "'j event list \<Rightarrow> 'j call list" where
  "calls_of [] = []"
| "calls_of (MessagesCreate p r # es) = ModelCall (p_tools p) # calls_of es"
| "calls_of (CallTool n a r # es) = ToolCall n a # calls_of es"
| "calls_of (e # es) = calls_of es"

fun tool_calls :: "'j event list \<Rightarrow> (string \<times> 'j) list" where
  "tool_calls [] = []"
| "tool_calls (CallTool n a r # es) = (n, a) # tool_calls es"
| "tool_calls (e # es) = tool_calls es"

fun model_calls :: "'j event list \<Rightarrow> 'j create_params list" where
  "model_calls [] = []"
| "model_calls (MessagesCreate p r # es) = p # model_calls es"
| "model_calls (e # es) = model_calls es"

text \<open>The results of the tool calls that returned.\<close>

fun tool_results :: "'j event list \<Rightarrow> 'j list" where
  "tool_results [] = []"
| "tool_results (CallTool n a (Inr r) # es) = r # tool_results es"
| "tool_results (e # es) = tool_results es"

text \<open>The \<^verbatim>\<open>tool_use\<close> items of a response, in order.\<close>

fun tool_uses :: "'j content_block list \<Rightarrow> (string \<times> 'j) list" where
  "tool_uses [] = []"
| "tool_uses (ToolUse n a # cs) = (n, a) # tool_uses cs"
| "tool_uses (c # cs) = tool_uses cs"

fun texts :: "'j content_block list \<Rightarrow> string list" where
  "texts [] = []"
| "texts (Text t # cs) = t # texts cs"
| "texts (c # cs) = texts cs"

fun is_text :: "'j content_block \<Rightarrow> bool" where
  "is_text (Text t) = True"
| "is_text c = False"

text \<open>
  The calls of a resolution that handles every item of the first response: the first model
  call with the catalog, then for each \<^verbatim>\<open>tool_use\<close> item its tool call and a model call
  without catalog.
\<close>

definition item_calls :: "'j content_block list \<Rightarrow> 'j call list" where
  "item_calls cs = concat (map (\<lambda>(n, a). [ToolCall n a, ModelCall None]) (tool_uses cs))"

definition full_calls :: "'j js_object list \<Rightarrow> 'j content_block list \<Rightarrow> 'j call list" where
  "full_calls tls response = ModelCall (Some tls) # item_calls response"

text \<open>A call that was rejected (the awaited promise threw).\<close>

fun rejected :: "'j event \<Rightarrow> bool" where
  "rejected (MessagesCreate p (Inl e)) = True"
| "rejected (CallTool n a (Inl e)) = True"
| "rejected ev = False"

text \<open>
  What the answer recorded in an event of a query resolution makes the \<^verbatim>\<open>try\<close> block
  throw: the value a rejected call throws, or the \<^verbatim>\<open>TypeError\<close> when a follow-up call
  (a model call without catalog) is answered with an empty content array.
\<close>

fun thrown_by :: "'j event \<Rightarrow> thrown option" where
  "thrown_by (MessagesCreate p (Inl e)) = Some e"
| "thrown_by (MessagesCreate p (Inr [])) =
     (if p_tools p = None then Some (ErrorObj undefined_type_message) else None)"
| "thrown_by (CallTool n a (Inl e)) = Some e"
| "thrown_by ev = None"

text \<open>
  Replaying the model calls and tool calls of a trace against the collaborators, from a
  world \<open>w\<close>: the result is the world reached when every recorded answer is the answer the
  collaborator gives to that call in the world reached so far, and \<open>None\<close> otherwise.
\<close>

fun replay :: "('w, 'j) externals \<Rightarrow> 'w \<Rightarrow> 'j event list \<Rightarrow> 'w option" where
  "replay ext w [] = Some w"
| "replay ext w (MessagesCreate p r # es) =
     (case create ext w p of (r', w') \<Rightarrow> if r' = r then replay ext w' es else None)"
| "replay ext w (CallTool n a r # es) =
     (case callTool ext w n a of (r', w') \<Rightarrow> if r' = r then replay ext w' es else None)"
| "replay ext w (e # es) = replay ext w es"

text \<open>The line the \<^verbatim>\<open>catch\<close> block of \<^verbatim>\<open>processQuery\<close> writes to the console.\<close>

definition catch_line :: "thrown \<Rightarrow> 'j event" where
  "catch_line e = ConsoleError [Str ''Error calling Anthropic API:'', Caught e]"

text \<open>
  The events of a run of the loop: either nothing in them throws, or the last one throws
  and nothing before it does.
\<close>

definition stops_at_throw :: "thrown option \<Rightarrow> 'j event list \<Rightarrow> bool" where
  "stops_at_throw r ev =
     (case r of
        None \<Rightarrow> (\<forall>x \<in> set ev. thrown_by x = None)
      | Some e \<Rightarrow> (\<exists>ev1 x. ev = ev1 @ [x] \<and> (\<forall>y \<in> set ev1. thrown_by y = None)
                      \<and> thrown_by x = Some e))"

text \<open>The turns of a conversation: the query, and a tool result pushed by line 79.\<close>

definition query_turn :: "string \<Rightarrow> 'j message_param" where
  "query_turn query = \<lparr>role = User, content = QueryText query\<rparr>"

definition user_turn :: "'j \<Rightarrow> 'j message_param" where
  "user_turn r = \<lparr>role = User, content = ResultContent r\<rparr>"

text \<open>
  The sequences obtained from \<open>m\<close> by appending one tool result turn after the other.
\<close>

fun snapshots :: "'j message_param list \<Rightarrow> 'j list \<Rightarrow> 'j message_param list list" where
  "snapshots m [] = []"
| "snapshots m (r # rs) = (m @ [user_turn r]) # snapshots (m @ [user_turn r]) rs"

section \<open>Stubs of the collaborators, for concrete runs\<close>

text \<open>
  The world is the number of model calls made so far; the model answers its \<open>k\<close>-th call
  with \<open>model k\<close>, the tool channel answers a call of tool \<open>n\<close> with \<open>tool n\<close>.
\<close>

definition scripted ::
  "(nat \<Rightarrow> thrown + string api_response) \<Rightarrow> (string \<Rightarrow> thrown + string)
     \<Rightarrow> (string \<times> string) list \<Rightarrow> (nat, string) externals" where
  "scripted model tool penv =
     \<lparr>create = (\<lambda>w p. (model w, Suc w)),
      callTool = (\<lambda>w n a. (tool n, w)),
      connect = (\<lambda>w tp. (Inr (), w)),
      listTools = (\<lambda>w. (Inr [[(''name'', Some ''search''), (''inputSchema'', Some ''{type: object}'')]], w)),
      close = (\<lambda>w. (Inr (), w)),
      stringify = (\<lambda>a. a),
      process_env = penv,
      platform = ''linux'',
      execPath = ''/usr/bin/node''\<rparr>"

definition start :: "(nat, string) io" where
  "start = \<lparr>world = 0, trace = []\<rparr>"

definition no_tools :: "string client" where
  "no_tools = \<lparr>transport = None, tools = []\<rparr>"

text \<open>
  A first response with two \<^verbatim>\<open>tool_use\<close> items, and collaborators for the runs below: a
  model that answers with one text, one that always fails, a model and tool channel that
  both work, a tool channel that rejects every call, a model that rejects every follow-up
  call, a response with a text before a \<^verbatim>\<open>tool_use\<close> whose call is rejected with a value that
  is not an \<^verbatim>\<open>Error\<close>, a follow-up response whose first item is not text, and two
  environments with the credential variable empty and set.
\<close>

definition two_tools :: "string api_response" where
  "two_tools = [ToolUse ''search'' ''{}'', ToolUse ''fetch'' ''{}'']"

definition text_stub :: "(nat, string) externals" where
  "text_stub = scripted (\<lambda>k. Inr [Text ''4'']) (\<lambda>n. Inr ''unused'') []"


definition working_stub :: "(nat, string) externals" where
  "working_stub = scripted (\<lambda>k. if k = 0 then Inr two_tools else Inr [Text ''done'']) (\<lambda>n. Inr (''result of '' @ n)) []"

definition tool_down_stub :: "(nat, string) externals" where
  "tool_down_stub = scripted (\<lambda>k. if k = 0 then Inr two_tools else Inr [Text ''done''])
     (\<lambda>n. Inl (ErrorObj ''tool down'')) []"

definition followup_down_stub :: "(nat, string) externals" where
  "followup_down_stub = scripted (\<lambda>k. if k = 0 then Inr two_tools else Inl (ErrorObj ''rate limited''))
     (\<lambda>n. Inr (''result of '' @ n)) []"


definition non_text_stub :: "(nat, string) externals" where
  "non_text_stub = scripted (\<lambda>k. if k = 0 then Inr [ToolUse ''search'' ''{}''] else Inr [OtherBlock])
     (\<lambda>n. Inr ''result text'') []"

definition empty_key_stub :: "(nat, string) externals" where
  "empty_key_stub = scripted (\<lambda>k. Inr [Text ''4'']) (\<lambda>n. Inr ''unused'')
     [(''ANTHROPIC_API_KEY'', [])]"

definition keyed_stub :: "(nat, string) externals" where
  "keyed_stub = scripted (\<lambda>k. Inr [Text ''4'']) (\<lambda>n. Inr ''unused'')
     [(''ANTHROPIC_API_KEY'', ''sk-test'')]"

definition argv3 :: "string list" where
  "argv3 = [''node'', ''index.js'', ''server.py'']"

text \<open>A tool process that offers two tools, one of them without description.\<close>

definition two_tool_server :: "(nat, string) externals" where
  "two_tool_server = text_stub
     \<lparr>listTools := (\<lambda>w. (Inr [[(''name'', Some ''search''),
                                     (''description'', Some ''Search for information''),
                                     (''inputSchema'', Some ''{type: object}'')],
                                    [(''name'', Some ''fetch''),
                                     (''inputSchema'', Some ''{type: object, required: [url]}''),
                                     (''annotations'', Some ''{}'')]], w))\<rparr>"

section \<open>Facts about traces\<close>

lemma trace_emit: "trace (emit e s) = trace s @ [e]"
  by (simp add: emit_def)

lemma world_emit: "world (emit e s) = world s"
  by (simp add: emit_def)

lemma calls_of_append: "calls_of (xs @ ys) = calls_of xs @ calls_of ys"
  by (induction xs rule: calls_of.induct) simp_all

lemma model_calls_append: "model_calls (xs @ ys) = model_calls xs @ model_calls ys"
  by (induction xs rule: model_calls.induct) simp_all

lemma tool_results_append: "tool_results (xs @ ys) = tool_results xs @ tool_results ys"
  by (induction xs rule: tool_results.induct) simp_all

lemma events_since_append: "trace s' = trace s @ ev \<Longrightarrow> events_since s s' = ev"
  by (simp add: events_since_def)

lemma item_calls_simps:
  "item_calls [] = []"
  "item_calls (Text t # cs) = item_calls cs"
  "item_calls (OtherBlock # cs) = item_calls cs"
  "item_calls (ToolUse n a # cs) = ToolCall n a # ModelCall None # item_calls cs"
  by (simp_all add: item_calls_def)

lemma join_snoc: "xs \<noteq> [] \<Longrightarrow> join sep (xs @ [y]) = join sep xs @ sep @ y"
  by (induction sep xs rule: join.induct) simp_all

lemma snapshots_take:
  "snapshots m rs = map (\<lambda>k. m @ take (Suc k) (map user_turn rs)) [0..<length rs]"
proof (induction rs arbitrary: m)
  case Nil
  show ?case by simp
next
  case (Cons r rs)
  have "map (\<lambda>k. m @ take (Suc k) (map user_turn (r # rs))) [0..<length (r # rs)]
        = (m @ [user_turn r]) # map (\<lambda>k. m @ take (Suc (Suc k)) (map user_turn (r # rs))) [0..<length rs]"
    by (simp add: upt_conv_Cons map_Suc_upt[symmetric] del: upt_Suc)
  also have "\<dots> = (m @ [user_turn r]) # map (\<lambda>k. (m @ [user_turn r]) @ take (Suc k) (map user_turn rs)) [0..<length rs]"
    by simp
  finally show ?case using Cons.IH[of "m @ [user_turn r]"] by simp
qed


lemma replay_append:
  "replay ext w (xs @ ys) = (case replay ext w xs of None \<Rightarrow> None | Some w' \<Rightarrow> replay ext w' ys)"
  by (induction ext w xs rule: replay.induct) (simp_all split: prod.splits)


lemma thrown_by_first_call: "p_tools p \<noteq> None \<Longrightarrow> thrown_by (MessagesCreate p (Inr r)) = None"
  by (cases r) simp_all

lemma replay_catch_line: "replay ext w (es @ [catch_line e]) = replay ext w es"
  by (simp add: replay_append catch_line_def split: option.splits)

lemma replay_quiet:
  "\<forall>w p. \<exists>r w'. create ext w p = (Inr r, w') \<and> (p_tools p = None \<longrightarrow> r \<noteq> []) \<Longrightarrow>
   \<forall>w n a. \<exists>r w'. callTool ext w n a = (Inr r, w') \<Longrightarrow>
   replay ext w ev = Some w'' \<Longrightarrow> \<forall>x \<in> set ev. thrown_by x = None"
proof (induction ext w ev rule: replay.induct)
  case (1 ext w)
  show ?case by simp
next
  case (2 ext w p r es)
  from "2.prems"(1) obtain rr w' where c: "create ext w p = (Inr rr, w')"
    "p_tools p = None \<longrightarrow> rr \<noteq> []"
    by blast
  with "2.prems"(3) have r: "r = Inr rr" and rest: "replay ext w' es = Some w''"
    by (auto split: if_splits)
  have "thrown_by (MessagesCreate p r) = None"
    using c(2) r by (cases rr) auto
  moreover have "\<forall>x \<in> set es. thrown_by x = None"
    using "2.IH" c(1) r rest "2.prems"(1,2) by simp
  ultimately show ?case by simp
next
  case (3 ext w n a r es)
  from "3.prems"(2) obtain rr w' where c: "callTool ext w n a = (Inr rr, w')"
    by blast
  with "3.prems"(3) have r: "r = Inr rr" and rest: "replay ext w' es = Some w''"
    by (auto split: if_splits)
  have "\<forall>x \<in> set es. thrown_by x = None"
    using "3.IH" c r rest "3.prems"(1,2) by simp
  with r show ?case by simp
qed simp_all


text \<open>The definitions to unfold when a concrete run is evaluated.\<close>

lemmas run_defs = processQuery_def processQuery_run_def processQuery_body_def
  processQuery_entry_def processQuery_try_def tool_use_branch_def scripted_def start_def
  no_tools_def emit_def request_def calling_tool_line_def error_text_def Let_def
  query_turn_def user_turn_def events_since_def full_calls_def item_calls_def two_tools_def

section \<open>The tool_use branch and the loop\<close>

lemma tool_use_branch_cases:
  assumes "tool_use_branch ext n a L s = (r, L', s')"
  obtains
    (tool_failed) e w1 where "callTool ext (world s) n a = (Inl e, w1)"
      "r = Some e" "L' = L" "trace s' = trace s @ [CallTool n a (Inl e)]"
  | (model_failed) res w1 e w2 where "callTool ext (world s) n a = (Inr res, w1)"
      "create ext w1 (request ext (messages L @ [user_turn res]) None) = (Inl e, w2)"
      "r = Some e"
      "L' = L\<lparr>finalText := finalText L @ [calling_tool_line ext n a],
              messages := messages L @ [user_turn res]\<rparr>"
      "trace s' = trace s @ [CallTool n a (Inr res),
          MessagesCreate (request ext (messages L @ [user_turn res]) None) (Inl e)]"
  | (empty_answer) res w1 w2 where "callTool ext (world s) n a = (Inr res, w1)"
      "create ext w1 (request ext (messages L @ [user_turn res]) None) = (Inr [], w2)"
      "r = Some (ErrorObj undefined_type_message)"
      "L' = L\<lparr>finalText := finalText L @ [calling_tool_line ext n a],
              messages := messages L @ [user_turn res]\<rparr>"
      "trace s' = trace s @ [CallTool n a (Inr res),
          MessagesCreate (request ext (messages L @ [user_turn res]) None) (Inr [])]"
  | (answered) res w1 c cs w2 where "callTool ext (world s) n a = (Inr res, w1)"
      "create ext w1 (request ext (messages L @ [user_turn res]) None) = (Inr (c # cs), w2)"
      "r = None"
      "L' = L\<lparr>finalText := finalText L @ [calling_tool_line ext n a,
                                            case c of Text t \<Rightarrow> t | _ \<Rightarrow> []],
              messages := messages L @ [user_turn res]\<rparr>"
      "trace s' = trace s @ [CallTool n a (Inr res),
          MessagesCreate (request ext (messages L @ [user_turn res]) None) (Inr (c # cs))]"
  using assms
  unfolding tool_use_branch_def Let_def user_turn_def
  by (auto simp: trace_emit world_emit split: prod.splits sum.splits list.splits)

lemma content_loop_inv:
  "content_loop ext cs L s = (r, L', s') \<Longrightarrow>
   \<exists>ev. trace s' = trace s @ ev
      \<and> prefix (calls_of ev) (item_calls cs)
      \<and> (r = None \<longrightarrow> calls_of ev = item_calls cs)
      \<and> messages L' = messages L @ map user_turn (tool_results ev)
      \<and> map p_messages (model_calls ev) = snapshots (messages L) (tool_results ev)
      \<and> length (tool_results ev) \<le> length (tool_uses cs)
      \<and> (r = None \<longrightarrow> length (tool_results ev) = length (tool_uses cs))
      \<and> (r = None \<longrightarrow> (\<forall>e \<in> set ev. \<not> rejected e))"
proof (induction ext cs L s arbitrary: r L' s' rule: content_loop.induct)
  case (1 ext L s)
  then show ?case by (auto simp: item_calls_simps)
next
  case (2 ext t cs L s)
  from "2.prems" have "content_loop ext cs (L\<lparr>finalText := finalText L @ [t]\<rparr>) s = (r, L', s')"
    by simp
  from "2.IH"[OF this] show ?case by (simp add: item_calls_simps)
next
  case (3 ext n a cs L s)
  obtain r1 L1 s1 where b: "tool_use_branch ext n a L s = (r1, L1, s1)"
    by (cases "tool_use_branch ext n a L s") auto
  from b show ?case
  proof (cases rule: tool_use_branch_cases)
    case (tool_failed e w1)
    with b "3.prems" have "r = Some e" "L' = L" "s' = s1" by simp_all
    with tool_failed show ?thesis
      by (intro exI[of _ "[CallTool n a (Inl e)]"]) (simp add: item_calls_simps)
  next
    case (model_failed res w1 e w2)
    with b "3.prems" have "r = Some e" "L' = L1" "s' = s1" by simp_all
    with model_failed show ?thesis
      by (intro exI[of _ "[CallTool n a (Inr res),
            MessagesCreate (request ext (messages L @ [user_turn res]) None) (Inl e)]"])
         (simp add: item_calls_simps request_def)
  next
    case (empty_answer res w1 w2)
    with b "3.prems" have "r = Some (ErrorObj undefined_type_message)" "L' = L1" "s' = s1"
      by simp_all
    with empty_answer show ?thesis
      by (intro exI[of _ "[CallTool n a (Inr res),
            MessagesCreate (request ext (messages L @ [user_turn res]) None) (Inr [])]"])
         (simp add: item_calls_simps request_def)
  next
    case (answered res w1 c cs' w2)
    with b "3.prems" have rest: "content_loop ext cs L1 s1 = (r, L', s')" by simp
    from "3.IH"[OF b[symmetric] _ _ rest] answered(3)
    obtain ev where ev: "trace s' = trace s1 @ ev"
      "prefix (calls_of ev) (item_calls cs)"
      "r = None \<longrightarrow> calls_of ev = item_calls cs"
      "messages L' = messages L1 @ map user_turn (tool_results ev)"
      "map p_messages (model_calls ev) = snapshots (messages L1) (tool_results ev)"
      "length (tool_results ev) \<le> length (tool_uses cs)"
      "r = None \<longrightarrow> length (tool_results ev) = length (tool_uses cs)"
      "r = None \<longrightarrow> (\<forall>e \<in> set ev. \<not> rejected e)"
      by auto
    let ?p = "request ext (messages L @ [user_turn res]) None"
    let ?ev = "[CallTool n a (Inr res), MessagesCreate ?p (Inr (c # cs'))] @ ev"
    have m1: "messages L1 = messages L @ [user_turn res]"
      using answered(4) by simp
    have "trace s' = trace s @ ?ev" using ev(1) answered(5) by simp
    moreover have "prefix (calls_of ?ev) (item_calls (ToolUse n a # cs))"
      using ev(2) by (simp add: item_calls_simps request_def)
    moreover have "r = None \<longrightarrow> calls_of ?ev = item_calls (ToolUse n a # cs)"
      using ev(3) by (simp add: item_calls_simps request_def)
    moreover have "messages L' = messages L @ map user_turn (tool_results ?ev)"
      using ev(4) m1 by simp
    moreover have "map p_messages (model_calls ?ev) = snapshots (messages L) (tool_results ?ev)"
      using ev(5) m1 by (simp add: request_def)
    moreover have "length (tool_results ?ev) \<le> length (tool_uses (ToolUse n a # cs))"
      using ev(6) by simp
    moreover have "r = None \<longrightarrow> length (tool_results ?ev) = length (tool_uses (ToolUse n a # cs))"
      using ev(7) by simp
    moreover have "r = None \<longrightarrow> (\<forall>e \<in> set ?ev. \<not> rejected e)"
      using ev(8) by simp
    ultimately show ?thesis by blast
  qed
next
  case (4 ext cs L s)
  from "4.prems" have "content_loop ext cs L s = (r, L', s')" by simp
  from "4.IH"[OF this] show ?case by (simp add: item_calls_simps)
qed

lemma content_loop_texts:
  "\<forall>c \<in> set cs. is_text c \<Longrightarrow>
   content_loop ext cs L s = (None, L\<lparr>finalText := finalText L @ texts cs\<rparr>, s)"
  by (induction ext cs L s rule: content_loop.induct) simp_all

lemma tool_uses_texts: "\<forall>c \<in> set cs. is_text c \<Longrightarrow> tool_uses cs = []"
  by (induction cs rule: tool_uses.induct) simp_all

lemma stops_at_throw_prepend:
  assumes "\<forall>x \<in> set pre. thrown_by x = None" and "stops_at_throw r ev"
  shows "stops_at_throw r (pre @ ev)"
proof (cases r)
  case None
  with assms show ?thesis by (auto simp: stops_at_throw_def)
next
  case (Some e)
  with assms(2) obtain ev1 x where ev: "ev = ev1 @ [x]"
    and quiet: "\<forall>y \<in> set ev1. thrown_by y = None" and x: "thrown_by x = Some e"
    by (auto simp: stops_at_throw_def)
  have "pre @ ev = (pre @ ev1) @ [x]" using ev by simp
  moreover have "\<forall>y \<in> set (pre @ ev1). thrown_by y = None" using assms(1) quiet by auto
  ultimately have "\<exists>ev1 x. pre @ ev = ev1 @ [x] \<and> (\<forall>y \<in> set ev1. thrown_by y = None)
      \<and> thrown_by x = Some e"
    using x by blast
  with Some show ?thesis by (simp add: stops_at_throw_def)
qed

lemma tool_use_branch_replay:
  assumes "tool_use_branch ext n a L s = (r, L', s')"
  shows "\<exists>ev. trace s' = trace s @ ev \<and> replay ext (world s) ev = Some (world s')
           \<and> stops_at_throw r ev"
proof -
  obtain a1 w1 where c1: "callTool ext (world s) n a = (a1, w1)"
    by (cases "callTool ext (world s) n a") auto
  show ?thesis
  proof (cases a1)
    case (Inl e)
    with c1 assms have "r = Some e" "trace s' = trace s @ [CallTool n a (Inl e)]" "world s' = w1"
      by (auto simp: tool_use_branch_def trace_emit world_emit)
    with c1 Inl show ?thesis
      by (intro exI[of _ "[CallTool n a (Inl e)]"]) (simp add: stops_at_throw_def)
  next
    case (Inr res)
    let ?p = "request ext (messages L @ [user_turn res]) None"
    obtain a2 w2 where c2: "create ext w1 ?p = (a2, w2)"
      by (cases "create ext w1 ?p") auto
    have tr: "trace s' = trace s @ [CallTool n a (Inr res), MessagesCreate ?p a2]"
      and w: "world s' = w2"
      using c1 c2 Inr assms
      by (auto simp: tool_use_branch_def Let_def user_turn_def trace_emit world_emit
          split: sum.splits list.splits)
    have r: "r = thrown_by (MessagesCreate ?p a2)"
      using c1 c2 Inr assms
      by (auto simp: tool_use_branch_def Let_def user_turn_def request_def world_emit
          split: sum.splits list.splits)
    have rp: "replay ext (world s) [CallTool n a (Inr res), MessagesCreate ?p a2] = Some (world s')"
      using c1 c2 Inr w by simp
    have "stops_at_throw r [CallTool n a (Inr res), MessagesCreate ?p a2]"
    proof (cases r)
      case None
      with r show ?thesis by (simp add: stops_at_throw_def)
    next
      case (Some e)
      have "[CallTool n a (Inr res), MessagesCreate ?p a2]
          = [CallTool n a (Inr res)] @ [MessagesCreate ?p a2]"
        by simp
      moreover have "\<forall>y \<in> set [CallTool n a (Inr res)]. thrown_by y = None"
        by simp
      moreover have "thrown_by (MessagesCreate ?p a2) = Some e"
        using r Some by simp
      ultimately have "\<exists>ev1 x. [CallTool n a (Inr res), MessagesCreate ?p a2] = ev1 @ [x]
          \<and> (\<forall>y \<in> set ev1. thrown_by y = None) \<and> thrown_by x = Some e"
        by blast
      with Some show ?thesis by (simp add: stops_at_throw_def)
    qed
    with tr rp show ?thesis by blast
  qed
qed

lemma content_loop_replay:
  "content_loop ext cs L s = (r, L', s') \<Longrightarrow>
   \<exists>ev. trace s' = trace s @ ev \<and> replay ext (world s) ev = Some (world s')
      \<and> stops_at_throw r ev"
proof (induction ext cs L s arbitrary: r L' s' rule: content_loop.induct)
  case (1 ext L s)
  then show ?case by (auto simp: stops_at_throw_def)
next
  case (2 ext t cs L s)
  from "2.prems" have "content_loop ext cs (L\<lparr>finalText := finalText L @ [t]\<rparr>) s = (r, L', s')"
    by simp
  from "2.IH"[OF this] show ?case .
next
  case (3 ext n a cs L s)
  obtain r1 L1 s1 where b: "tool_use_branch ext n a L s = (r1, L1, s1)"
    by (cases "tool_use_branch ext n a L s") auto
  from tool_use_branch_replay[OF b] obtain ev1 where ev1: "trace s1 = trace s @ ev1"
    "replay ext (world s) ev1 = Some (world s1)" "stops_at_throw r1 ev1"
    by blast
  show ?case
  proof (cases r1)
    case (Some e)
    with b "3.prems" have "r = r1" "s' = s1" by simp_all
    with ev1 show ?thesis by blast
  next
    case None
    with b "3.prems" have rest: "content_loop ext cs L1 s1 = (r, L', s')" by simp
    from "3.IH"[OF b[symmetric] _ _ rest] None
    obtain ev where ev: "trace s' = trace s1 @ ev" "replay ext (world s1) ev = Some (world s')"
      "stops_at_throw r ev"
      by auto
    have "trace s' = trace s @ (ev1 @ ev)" using ev(1) ev1(1) by simp
    moreover have "replay ext (world s) (ev1 @ ev) = Some (world s')"
      using ev(2) ev1(2) by (simp add: replay_append)
    moreover have "stops_at_throw r (ev1 @ ev)"
      using ev1(3) None ev(3) by (intro stops_at_throw_prepend) (simp_all add: stops_at_throw_def)
    ultimately show ?thesis by blast
  qed
next
  case (4 ext cs L s)
  from "4.prems" have "content_loop ext cs L s = (r, L', s')" by simp
  from "4.IH"[OF this] show ?case .
qed




section \<open>processQuery as a whole\<close>

lemma processQuery_body_round1_failed:
  assumes "create ext (world s) (request ext [query_turn query] (Some (tools this))) = (Inl e, w1)"
  shows "\<exists>L' s' ev. processQuery_body ext this query s = (Inl e, L', s')
           \<and> trace s' = trace s @ ev \<and> calls_of ev = [ModelCall (Some (tools this))]
           \<and> tool_results ev = [] \<and> messages L' = [query_turn query]
           \<and> map p_messages (model_calls ev) = [[query_turn query]]"
  using assms
  by (simp add: processQuery_body_def processQuery_entry_def processQuery_try_def Let_def
      query_turn_def trace_emit world_emit request_def)

lemma processQuery_body_round1_answered:
  assumes "create ext (world s) (request ext [query_turn query] (Some (tools this))) = (Inr response, w1)"
    and "processQuery_body ext this query s = (r, L', s')"
  shows "\<exists>ev s2. trace s' = trace s @ ev
           \<and> prefix (calls_of ev) (full_calls (tools this) response)
           \<and> messages L' = query_turn query # map user_turn (tool_results ev)
           \<and> map p_messages (model_calls ev)
               = [query_turn query] # snapshots [query_turn query] (tool_results ev)
           \<and> length (tool_results ev) \<le> length (tool_uses response)
           \<and> ((\<exists>out. r = Inr out) \<longrightarrow>
                 calls_of ev = full_calls (tools this) response
               \<and> length (tool_results ev) = length (tool_uses response)
               \<and> (\<forall>e \<in> set ev. \<not> rejected e))
           \<and> (case content_loop ext response \<lparr>messages = [query_turn query], finalText = []\<rparr> s2 of
                 (Some e, L, s3) \<Rightarrow> r = Inl e
               | (None, L, s3) \<Rightarrow> r = Inr (join [nl] (finalText L)))"
proof -
  let ?p = "request ext [query_turn query] (Some (tools this))"
  let ?pre = "[ConsoleLog [Str (''In processQuery: '' @ query),
                 Cat (Str ''tools: '') (Names (map (\<lambda>tool. read_prop tool ''name'') (tools this)))],
               ConsoleLog [Cat (Str ''The messages array is: '') (JsonMessages [query_turn query])],
               MessagesCreate ?p (Inr response),
               ConsoleLog [Str ''The response from the anthropic api is:'', JsonResponse response]]"
  let ?L0 = "\<lparr>messages = [query_turn query], finalText = []\<rparr>"
  define s2 where "s2 = s\<lparr>world := w1, trace := trace s @ ?pre\<rparr>"
  have s2: "trace s2 = trace s @ ?pre"
    by (simp add: s2_def)
  have body: "processQuery_body ext this query s =
      (case content_loop ext response ?L0 s2 of
         (Some e, L, s3) \<Rightarrow> (Inl e, L, s3)
       | (None, L, s3) \<Rightarrow> (Inr (join [nl] (finalText L)), L, s3))"
    using assms(1)
    by (simp add: processQuery_body_def processQuery_entry_def processQuery_try_def Let_def
        query_turn_def emit_def s2_def)
  obtain r0 L0 s0 where loop: "content_loop ext response ?L0 s2 = (r0, L0, s0)"
    by (cases "content_loop ext response ?L0 s2") auto
  from body loop assms(2) have eqs: "L' = L0" "s' = s0"
    and r: "r = (case r0 of Some e \<Rightarrow> Inl e | None \<Rightarrow> Inr (join [nl] (finalText L0)))"
    by (auto split: option.splits)
  from content_loop_inv[OF loop] obtain ev where ev: "trace s0 = trace s2 @ ev"
      "prefix (calls_of ev) (item_calls response)"
      "r0 = None \<longrightarrow> calls_of ev = item_calls response"
      "messages L0 = [query_turn query] @ map user_turn (tool_results ev)"
      "map p_messages (model_calls ev) = snapshots [query_turn query] (tool_results ev)"
      "length (tool_results ev) \<le> length (tool_uses response)"
      "r0 = None \<longrightarrow> length (tool_results ev) = length (tool_uses response)"
      "r0 = None \<longrightarrow> (\<forall>e \<in> set ev. \<not> rejected e)"
    by auto
  have r0: "(\<exists>out. r = Inr out) \<longrightarrow> r0 = None"
    using r by (auto split: option.splits)
  have f1: "trace s' = trace s @ (?pre @ ev)" using ev(1) s2 eqs by simp
  have f2: "prefix (calls_of (?pre @ ev)) (full_calls (tools this) response)"
    using ev(2) by (simp add: full_calls_def request_def)
  have f3: "messages L' = query_turn query # map user_turn (tool_results (?pre @ ev))"
    using ev(4) eqs by simp
  have f4: "map p_messages (model_calls (?pre @ ev))
      = [query_turn query] # snapshots [query_turn query] (tool_results (?pre @ ev))"
    using ev(5) by (simp add: request_def)
  have f5: "length (tool_results (?pre @ ev)) \<le> length (tool_uses response)"
    using ev(6) by simp
  have f6: "(\<exists>out. r = Inr out) \<longrightarrow>
                 calls_of (?pre @ ev) = full_calls (tools this) response
               \<and> length (tool_results (?pre @ ev)) = length (tool_uses response)
               \<and> (\<forall>e \<in> set (?pre @ ev). \<not> rejected e)"
    using ev(3,7,8) r0 by (simp add: full_calls_def request_def)
  have f7: "(case content_loop ext response ?L0 s2 of
                 (Some e, L, s3) \<Rightarrow> r = Inl e
               | (None, L, s3) \<Rightarrow> r = Inr (join [nl] (finalText L)))"
    using loop r by (simp split: option.splits)
  show ?thesis
    apply (rule exI[of _ "?pre @ ev"], rule exI[of _ s2])
    apply (intro conjI)
          apply (rule f1)
         apply (rule f2)
        apply (rule f3)
       apply (rule f4)
      apply (rule f5)
     apply (rule f6)
    apply (rule f7)
    done
qed


lemma processQuery_unfold:
  "processQuery ext this query s =
     (case processQuery_body ext this query s of
        (Inr out, L, s') \<Rightarrow> (out, s')
      | (Inl e, L, s') \<Rightarrow>
          (error_text e, emit (ConsoleError [Str ''Error calling Anthropic API:'', Caught e]) s'))"
  by (simp add: processQuery_def processQuery_run_def split: prod.splits sum.splits)

lemma tool_calls_of_calls:
  "tool_calls ev = List.map_filter (\<lambda>c. case c of ToolCall n a \<Rightarrow> Some (n, a) | _ \<Rightarrow> None) (calls_of ev)"
  by (induction ev rule: calls_of.induct) simp_all

lemma tools_of_calls:
  "map p_tools (model_calls ev)
     = List.map_filter (\<lambda>c. case c of ModelCall t \<Rightarrow> Some t | _ \<Rightarrow> None) (calls_of ev)"
  by (induction ev rule: calls_of.induct) simp_all

lemma tool_calls_item_calls:
  "List.map_filter (\<lambda>c. case c of ToolCall n a \<Rightarrow> Some (n, a) | _ \<Rightarrow> None) (item_calls cs)
     = tool_uses cs"
  by (induction cs rule: tool_uses.induct) (simp_all add: item_calls_simps)

lemma tools_item_calls:
  "List.map_filter (\<lambda>c. case c of ModelCall t \<Rightarrow> Some t | _ \<Rightarrow> None) (item_calls cs)
     = replicate (length (tool_uses cs)) None"
  by (induction cs rule: tool_uses.induct) (simp_all add: item_calls_simps)

lemma prefixes_upto:
  "[q] # map (\<lambda>k. [q] @ take (Suc k) xs) [0..<length xs]
     = map (\<lambda>k. take (Suc k) (q # xs)) [0..<length (q # xs)]"
proof -
  have "map (\<lambda>k. take (Suc k) (q # xs)) [0..<length (q # xs)]
        = [q] # map (\<lambda>k. take (Suc (Suc k)) (q # xs)) [0..<length xs]"
    by (simp add: upt_conv_Cons map_Suc_upt[symmetric] del: upt_Suc)
  then show ?thesis by simp
qed

text \<open>The events of a whole call, with or without a throw.\<close>

lemma processQuery_run_events:
  assumes "processQuery_run ext this query s = (out, L', s')"
  obtains r s0 ev where "processQuery_body ext this query s = (r, L', s0)"
    "events_since s s' = ev @ (case r of Inl e \<Rightarrow> [ConsoleError [Str ''Error calling Anthropic API:'', Caught e]] | Inr t \<Rightarrow> [])"
    "trace s0 = trace s @ ev"
    "messages L' = query_turn query # map user_turn (tool_results ev)"
    "map p_messages (model_calls ev) = [query_turn query] # snapshots [query_turn query] (tool_results ev)"
proof -
  obtain r L0 s0 where body: "processQuery_body ext this query s = (r, L0, s0)"
    by (cases "processQuery_body ext this query s") auto
  with assms have L0: "L0 = L'"
    and s': "trace s' = trace s0 @ (case r of Inl e \<Rightarrow> [ConsoleError [Str ''Error calling Anthropic API:'', Caught e]] | Inr t \<Rightarrow> [])"
    by (auto simp: processQuery_run_def trace_emit split: sum.splits)
  obtain a w1 where c: "create ext (world s) (request ext [query_turn query] (Some (tools this))) = (a, w1)"
    by (cases "create ext (world s) (request ext [query_turn query] (Some (tools this)))") auto
  show ?thesis
  proof (cases a)
    case (Inl e)
    with c processQuery_body_round1_failed[of ext s query this e w1] body
    obtain ev where "trace s0 = trace s @ ev" "tool_results ev = []"
      "messages L0 = [query_turn query]" "map p_messages (model_calls ev) = [[query_turn query]]"
      by auto
    with that[of r s0 ev] body L0 s' show ?thesis
      by (simp add: events_since_def)
  next
    case (Inr response)
    with c processQuery_body_round1_answered[of ext s query this response w1 r L0 s0] body
    obtain ev where "trace s0 = trace s @ ev"
      "messages L0 = query_turn query # map user_turn (tool_results ev)"
      "map p_messages (model_calls ev) = [query_turn query] # snapshots [query_turn query] (tool_results ev)"
      by auto
    with that[of r s0 ev] body L0 s' show ?thesis
      by (simp add: events_since_def)
  qed
qed

lemma processQuery_body_loop:
  assumes "create ext (world s) (request ext [query_turn query] (Some (tools this))) = (Inr response, w1)"
  shows "\<exists>s2. world s2 = w1
          \<and> trace s2 = trace s @
              [ConsoleLog [Str (''In processQuery: '' @ query),
                 Cat (Str ''tools: '') (Names (map (\<lambda>tool. read_prop tool ''name'') (tools this)))],
               ConsoleLog [Cat (Str ''The messages array is: '') (JsonMessages [query_turn query])],
               MessagesCreate (request ext [query_turn query] (Some (tools this))) (Inr response),
               ConsoleLog [Str ''The response from the anthropic api is:'', JsonResponse response]]
          \<and> processQuery_body ext this query s =
              (case content_loop ext response \<lparr>messages = [query_turn query], finalText = []\<rparr> s2 of
                 (Some e, L, s3) \<Rightarrow> (Inl e, L, s3)
               | (None, L, s3) \<Rightarrow> (Inr (join [nl] (finalText L)), L, s3))"
proof -
  let ?pre = "[ConsoleLog [Str (''In processQuery: '' @ query),
                 Cat (Str ''tools: '') (Names (map (\<lambda>tool. read_prop tool ''name'') (tools this)))],
               ConsoleLog [Cat (Str ''The messages array is: '') (JsonMessages [query_turn query])],
               MessagesCreate (request ext [query_turn query] (Some (tools this))) (Inr response),
               ConsoleLog [Str ''The response from the anthropic api is:'', JsonResponse response]]"
  define s2 where "s2 = s\<lparr>world := w1, trace := trace s @ ?pre\<rparr>"
  have "world s2 = w1" "trace s2 = trace s @ ?pre"
    by (simp_all add: s2_def)
  moreover have "processQuery_body ext this query s =
      (case content_loop ext response \<lparr>messages = [query_turn query], finalText = []\<rparr> s2 of
         (Some e, L, s3) \<Rightarrow> (Inl e, L, s3)
       | (None, L, s3) \<Rightarrow> (Inr (join [nl] (finalText L)), L, s3))"
    using assms
    by (simp add: processQuery_body_def processQuery_entry_def processQuery_try_def Let_def
        query_turn_def emit_def s2_def)
  ultimately show ?thesis by blast
qed

text \<open>
  The events of the \<^verbatim>\<open>try\<close> block, whatever the collaborators do: they replay against the
  collaborators, and a throw is the last of them.
\<close>

lemma processQuery_body_trace:
  assumes "processQuery_body ext this query s = (r, L', s0)"
  shows "\<exists>ev. trace s0 = trace s @ ev \<and> replay ext (world s) ev = Some (world s0)
           \<and> stops_at_throw (case r of Inl e \<Rightarrow> Some e | Inr t \<Rightarrow> None) ev"
proof -
  let ?p = "request ext [query_turn query] (Some (tools this))"
  obtain a w1 where c: "create ext (world s) ?p = (a, w1)"
    by (cases "create ext (world s) ?p") auto
  show ?thesis
  proof (cases a)
    case (Inl e)
    let ?ev = "[ConsoleLog [Str (''In processQuery: '' @ query),
                 Cat (Str ''tools: '') (Names (map (\<lambda>tool. read_prop tool ''name'') (tools this)))],
               ConsoleLog [Cat (Str ''The messages array is: '') (JsonMessages [query_turn query])],
               MessagesCreate ?p (Inl e)]"
    from c Inl assms have r: "r = Inl e" and tr: "trace s0 = trace s @ ?ev" and w: "world s0 = w1"
      by (auto simp: processQuery_body_def processQuery_entry_def processQuery_try_def Let_def
          query_turn_def emit_def)
    have rp: "replay ext (world s) ?ev = Some (world s0)"
      using c Inl w by simp
    have "?ev = butlast ?ev @ [MessagesCreate ?p (Inl e)]"
      "\<forall>y \<in> set (butlast ?ev). thrown_by y = None"
      "thrown_by (MessagesCreate ?p (Inl e)) = Some e"
      by simp_all
    then have "\<exists>ev1 x. ?ev = ev1 @ [x] \<and> (\<forall>y \<in> set ev1. thrown_by y = None) \<and> thrown_by x = Some e"
      by blast
    then have "stops_at_throw (Some e) ?ev"
      by (simp add: stops_at_throw_def)
    with tr rp r show ?thesis by auto
  next
    case (Inr response)
    with c processQuery_body_loop[of ext s query this response w1]
    obtain s2 where s2: "world s2 = w1"
      "trace s2 = trace s @
              [ConsoleLog [Str (''In processQuery: '' @ query),
                 Cat (Str ''tools: '') (Names (map (\<lambda>tool. read_prop tool ''name'') (tools this)))],
               ConsoleLog [Cat (Str ''The messages array is: '') (JsonMessages [query_turn query])],
               MessagesCreate ?p (Inr response),
               ConsoleLog [Str ''The response from the anthropic api is:'', JsonResponse response]]"
      and body: "processQuery_body ext this query s =
              (case content_loop ext response \<lparr>messages = [query_turn query], finalText = []\<rparr> s2 of
                 (Some e, L, s3) \<Rightarrow> (Inl e, L, s3)
               | (None, L, s3) \<Rightarrow> (Inr (join [nl] (finalText L)), L, s3))"
      by blast
    let ?pre = "[ConsoleLog [Str (''In processQuery: '' @ query),
                 Cat (Str ''tools: '') (Names (map (\<lambda>tool. read_prop tool ''name'') (tools this)))],
               ConsoleLog [Cat (Str ''The messages array is: '') (JsonMessages [query_turn query])],
               MessagesCreate ?p (Inr response),
               ConsoleLog [Str ''The response from the anthropic api is:'', JsonResponse response]]"
    obtain r0 L0 s3 where loop:
      "content_loop ext response \<lparr>messages = [query_turn query], finalText = []\<rparr> s2 = (r0, L0, s3)"
      by (cases "content_loop ext response \<lparr>messages = [query_turn query], finalText = []\<rparr> s2") auto
    with body assms have s0: "s0 = s3"
      and r: "(case r of Inl e \<Rightarrow> Some e | Inr t \<Rightarrow> None) = r0"
      by (auto split: option.splits)
    from content_loop_replay[OF loop] obtain ev where ev: "trace s3 = trace s2 @ ev"
      "replay ext (world s2) ev = Some (world s3)" "stops_at_throw r0 ev"
      by blast
    have quiet: "\<forall>x \<in> set ?pre. thrown_by x = None"
      by (simp add: request_def thrown_by_first_call)
    have "trace s0 = trace s @ (?pre @ ev)"
      using ev(1) s2(2) s0 by simp
    moreover have "replay ext (world s) (?pre @ ev) = Some (world s0)"
      using ev(2) s2(1) c Inr s0 by simp
    moreover have "stops_at_throw r0 (?pre @ ev)"
      using quiet ev(3) by (rule stops_at_throw_prepend)
    ultimately show ?thesis using r by blast
  qed
qed

text \<open>The same for the whole function: after a throw only the line of the catch block follows.\<close>

lemma processQuery_run_trace:
  assumes "processQuery_run ext this query s = (out, L', s')"
  shows "replay ext (world s) (events_since s s') = Some (world s')
       \<and> ((\<exists>t L s''. processQuery_body ext this query s = (Inr t, L, s'')
              \<and> (\<forall>x \<in> set (events_since s s'). thrown_by x = None))
           \<or> (\<exists>ev1 x e L s''. processQuery_body ext this query s = (Inl e, L, s'')
              \<and> events_since s s' = ev1 @ [x, catch_line e]
              \<and> (\<forall>y \<in> set ev1. thrown_by y = None) \<and> thrown_by x = Some e
              \<and> out = error_text e))"
proof -
  obtain r L0 s0 where body: "processQuery_body ext this query s = (r, L0, s0)"
    by (cases "processQuery_body ext this query s") auto
  from processQuery_body_trace[OF body] obtain ev where ev: "trace s0 = trace s @ ev"
    "replay ext (world s) ev = Some (world s0)"
    "stops_at_throw (case r of Inl e \<Rightarrow> Some e | Inr t \<Rightarrow> None) ev"
    by blast
  show ?thesis
  proof (cases r)
    case (Inr t)
    with body assms have "s' = s0" by (simp add: processQuery_run_def)
    with ev Inr body show ?thesis
      by (auto simp: events_since_def stops_at_throw_def)
  next
    case (Inl e)
    with body assms have s': "s' = emit (catch_line e) s0" and out: "out = error_text e"
      by (simp_all add: processQuery_run_def catch_line_def)
    from ev(3) Inl obtain ev1 x where st: "ev = ev1 @ [x]" "\<forall>y \<in> set ev1. thrown_by y = None"
      "thrown_by x = Some e"
      by (auto simp: stops_at_throw_def)
    have es: "events_since s s' = ev1 @ [x, catch_line e]"
      using s' ev(1) st(1) by (simp add: events_since_def trace_emit)
    have "events_since s s' = ev @ [catch_line e]"
      using es st(1) by simp
    then have "replay ext (world s) (events_since s s') = Some (world s')"
      using ev(2) s' by (simp add: replay_catch_line world_emit)
    with es st out body Inl show ?thesis by blast
  qed
qed

lemma processQuery_of_run:
  "processQuery_run ext this query s = (out, L', s') \<Longrightarrow> processQuery ext this query s = (out, s')"
  by (simp add: processQuery_def)


lemma working_stub_answers:
  "\<forall>w p. \<exists>r w'. create working_stub w p = (Inr r, w') \<and> (p_tools p = None \<longrightarrow> r \<noteq> [])"
  "\<forall>w n a. \<exists>r w'. callTool working_stub w n a = (Inr r, w')"
  by (simp_all add: working_stub_def scripted_def two_tools_def)


section \<open>Properties of processQuery\<close>

text \<open>
  Claim C2. When the first model response holds only text items, \<^verbatim>\<open>processQuery\<close> returns
  those texts joined by newlines, the first model call is the only call made: the tool
  channel is not called and there is no second model call.
\<close>

theorem processQuery_text_only:
  assumes "create ext (world s) (request ext [query_turn query] (Some (tools this))) = (Inr response, w1)"
    and "\<forall>c \<in> set response. is_text c"
  shows "fst (processQuery ext this query s) = join [nl] (texts response)
       \<and> calls_of (events_since s (snd (processQuery ext this query s)))
           = [ModelCall (Some (tools this))]
       \<and> tool_calls (events_since s (snd (processQuery ext this query s))) = []"
proof -
  obtain r L' s' where body: "processQuery_body ext this query s = (r, L', s')"
    by (cases "processQuery_body ext this query s") auto
  from processQuery_body_round1_answered[OF assms(1) body]
  obtain ev s2 where ev: "trace s' = trace s @ ev"
    and full: "(\<exists>out. r = Inr out) \<longrightarrow>
                 calls_of ev = full_calls (tools this) response
               \<and> length (tool_results ev) = length (tool_uses response)
               \<and> (\<forall>e \<in> set ev. \<not> rejected e)"
    and loop: "case content_loop ext response \<lparr>messages = [query_turn query], finalText = []\<rparr> s2 of
       (Some e, L, s3) \<Rightarrow> r = Inl e
     | (None, L, s3) \<Rightarrow> r = Inr (join [nl] (finalText L))"
    by (elim exE conjE) (rule that)
  from loop have r: "r = Inr (join [nl] (texts response))"
    by (simp add: content_loop_texts[OF assms(2)])
  with full have calls: "calls_of ev = [ModelCall (Some (tools this))]"
    by (simp add: full_calls_def item_calls_def tool_uses_texts[OF assms(2)])
  have pq: "processQuery ext this query s = (join [nl] (texts response), s')"
    using body r by (simp add: processQuery_unfold)
  have "events_since s s' = ev"
    using ev by (rule events_since_append)
  with pq calls show ?thesis
    by (simp add: tool_calls_of_calls)
qed

theorem processQuery_text_only_witness:
  "create text_stub (world start) (request text_stub [query_turn ''What is 2+2?''] (Some (tools no_tools)))
     = (Inr [Text ''4''], 1)
   \<and> list_all is_text [Text ''4'' :: string content_block]
   \<and> fst (processQuery text_stub no_tools ''What is 2+2?'' start) = ''4''
   \<and> tool_calls (events_since start (snd (processQuery text_stub no_tools ''What is 2+2?'' start))) = []"
proof -
  have h1: "create text_stub (world start)
      (request text_stub [query_turn ''What is 2+2?''] (Some (tools no_tools))) = (Inr [Text ''4''], 1)"
    by (simp add: text_stub_def scripted_def start_def)
  have h2: "\<forall>c \<in> set [Text ''4'' :: string content_block]. is_text c"
    by simp
  from processQuery_text_only[OF h1 h2] h1 h2 show ?thesis by simp
qed





text \<open>
  Claim C1, amended. For a first response with \<open>N\<close> \<^verbatim>\<open>tool_use\<close> items, the calls made are
  always an initial part of: the first model call, then for each item in order its tool
  call (with the name and arguments of the item) followed by a model call without the tool
  catalog; the answers in the trace are the collaborators' answers. A throw stops the
  processing: after the call whose answer throws, only the console line of the catch block
  follows. When no answer throws (in particular with collaborators that never reject and
  never answer a follow-up call with an empty content array) the calls made are all of
  them: exactly \<open>N\<close> tool calls and \<open>N\<close> follow-up model calls.
\<close>

theorem processQuery_calls:
  assumes "create ext (world s) (request ext [query_turn query] (Some (tools this))) = (Inr response, w1)"
  shows "(let s' = snd (processQuery ext this query s); ev = events_since s s' in
          prefix (calls_of ev) (full_calls (tools this) response)
        \<and> replay ext (world s) ev = Some (world s')
        \<and> ((\<forall>x \<in> set ev. thrown_by x = None)
            \<or> (\<exists>ev1 x e. ev = ev1 @ [x, catch_line e]
                  \<and> (\<forall>y \<in> set ev1. thrown_by y = None) \<and> thrown_by x = Some e))
        \<and> ((\<forall>x \<in> set ev. thrown_by x = None) \<longrightarrow>
              calls_of ev = full_calls (tools this) response
            \<and> tool_calls ev = tool_uses response
            \<and> map p_tools (model_calls ev)
                = Some (tools this) # replicate (length (tool_uses response)) None)
        \<and> ((\<forall>w p. \<exists>r w'. create ext w p = (Inr r, w') \<and> (p_tools p = None \<longrightarrow> r \<noteq> []))
            \<and> (\<forall>w n a. \<exists>r w'. callTool ext w n a = (Inr r, w')) \<longrightarrow>
              calls_of ev = full_calls (tools this) response
            \<and> tool_calls ev = tool_uses response))"
proof -
  obtain out L' s' where run: "processQuery_run ext this query s = (out, L', s')"
    by (cases "processQuery_run ext this query s") auto
  then have pq: "processQuery ext this query s = (out, s')"
    by (rule processQuery_of_run)
  obtain r L0 s0 where body: "processQuery_body ext this query s = (r, L0, s0)"
    by (cases "processQuery_body ext this query s") auto
  from processQuery_body_round1_answered[OF assms body]
  obtain evb where evb: "trace s0 = trace s @ evb"
    "prefix (calls_of evb) (full_calls (tools this) response)"
    "(\<exists>out. r = Inr out) \<longrightarrow> calls_of evb = full_calls (tools this) response"
    by blast
  let ?ev = "events_since s s'"
  have cs: "calls_of ?ev = calls_of evb"
    using body evb(1) pq
    by (cases r) (auto simp: processQuery_unfold events_since_def trace_emit calls_of_append)
  from processQuery_run_trace[OF run]
  have rp: "replay ext (world s) ?ev = Some (world s')"
    and dj: "(\<exists>t L s''. processQuery_body ext this query s = (Inr t, L, s'')
              \<and> (\<forall>x \<in> set ?ev. thrown_by x = None))
           \<or> (\<exists>ev1 x e L s''. processQuery_body ext this query s = (Inl e, L, s'')
              \<and> ?ev = ev1 @ [x, catch_line e]
              \<and> (\<forall>y \<in> set ev1. thrown_by y = None) \<and> thrown_by x = Some e
              \<and> out = error_text e)"
    by simp_all
  have c1: "prefix (calls_of ?ev) (full_calls (tools this) response)"
    using cs evb(2) by simp
  have c3: "(\<forall>x \<in> set ?ev. thrown_by x = None)
            \<or> (\<exists>ev1 x e. ?ev = ev1 @ [x, catch_line e]
                  \<and> (\<forall>y \<in> set ev1. thrown_by y = None) \<and> thrown_by x = Some e)"
    using dj by blast
  have full: "calls_of ?ev = full_calls (tools this) response"
    if quiet: "\<forall>x \<in> set ?ev. thrown_by x = None"
  proof -
    from dj quiet have "\<exists>t L s''. processQuery_body ext this query s = (Inr t, L, s'')"
      by fastforce
    with body evb(3) cs show ?thesis by auto
  qed
  have rest: "tool_calls ?ev = tool_uses response
      \<and> map p_tools (model_calls ?ev) = Some (tools this) # replicate (length (tool_uses response)) None"
    if "calls_of ?ev = full_calls (tools this) response"
    using that
    by (simp add: tool_calls_of_calls tools_of_calls full_calls_def
        tool_calls_item_calls tools_item_calls)
  have c4: "(\<forall>x \<in> set ?ev. thrown_by x = None) \<longrightarrow>
              calls_of ?ev = full_calls (tools this) response
            \<and> tool_calls ?ev = tool_uses response
            \<and> map p_tools (model_calls ?ev)
                = Some (tools this) # replicate (length (tool_uses response)) None"
    using full rest by blast
  have c5: "(\<forall>w p. \<exists>r w'. create ext w p = (Inr r, w') \<and> (p_tools p = None \<longrightarrow> r \<noteq> []))
            \<and> (\<forall>w n a. \<exists>r w'. callTool ext w n a = (Inr r, w')) \<longrightarrow>
              calls_of ?ev = full_calls (tools this) response
            \<and> tool_calls ?ev = tool_uses response"
    using replay_quiet[OF _ _ rp] full rest by blast
  from c1 rp c3 c4 c5 show ?thesis
    unfolding Let_def pq snd_conv by (intro conjI)
qed

theorem processQuery_calls_counterexample:
  "create tool_down_stub (world start)
      (request tool_down_stub [query_turn ''find it''] (Some (tools no_tools))) = (Inr two_tools, 1)
   \<and> length (tool_uses two_tools) = 2
   \<and> calls_of (events_since start (snd (processQuery tool_down_stub no_tools ''find it'' start)))
       = [ModelCall (Some []), ToolCall ''search'' ''{}'']
   \<and> length (tool_calls (events_since start (snd (processQuery tool_down_stub no_tools ''find it'' start)))) = 1
   \<and> length (tool_calls (events_since start (snd (processQuery tool_down_stub no_tools ''find it'' start))))
       \<noteq> length (tool_uses two_tools)
   \<and> length (model_calls (events_since start (snd (processQuery tool_down_stub no_tools ''find it'' start)))) = 1"
  by (simp add: tool_down_stub_def run_defs)

theorem processQuery_calls_witness:
  "create working_stub (world start)
      (request working_stub [query_turn ''find it''] (Some (tools no_tools))) = (Inr two_tools, 1)
   \<and> calls_of (events_since start (snd (processQuery working_stub no_tools ''find it'' start)))
       = [ModelCall (Some []), ToolCall ''search'' ''{}'', ModelCall None,
          ToolCall ''fetch'' ''{}'', ModelCall None]
   \<and> tool_calls (events_since start (snd (processQuery working_stub no_tools ''find it'' start)))
       = [(''search'', ''{}''), (''fetch'', ''{}'')]"
proof -
  have h1: "create working_stub (world start)
      (request working_stub [query_turn ''find it''] (Some (tools no_tools))) = (Inr two_tools, 1)"
    by (simp add: working_stub_def scripted_def start_def)
  from processQuery_calls[OF h1, unfolded Let_def] working_stub_answers
  have "calls_of (events_since start (snd (processQuery working_stub no_tools ''find it'' start)))
          = full_calls (tools no_tools) two_tools
      \<and> tool_calls (events_since start (snd (processQuery working_stub no_tools ''find it'' start)))
          = tool_uses two_tools"
    by blast
  with h1 show ?thesis
    by (simp add: full_calls_def item_calls_def two_tools_def no_tools_def)
qed

text \<open>
  Claim C8, amended. The conversation sequence starts as the single turn of the query and
  at the end it is that turn followed by one user turn for each tool call that returned,
  carrying its result, in order. The model call number \<open>k\<close> was sent the first \<open>k + 1\<close>
  turns of the final sequence, so the sequence only grew at its end, by one turn before
  each follow-up call. After a call whose answer throws nothing is appended and no call is
  made. The number of turns appended is at most the number of \<^verbatim>\<open>tool_use\<close> items, and equal
  to it when no answer throws (in particular with collaborators that never reject and never
  answer a follow-up call with an empty content array).
\<close>

theorem processQuery_conversation:
  assumes "processQuery_run ext this query s = (out, L', s')"
  shows "(let ev = events_since s s' in
          messages L' = query_turn query # map user_turn (tool_results ev)
        \<and> map p_messages (model_calls ev)
            = map (\<lambda>k. take (Suc k) (messages L')) [0..<length (messages L')]
        \<and> replay ext (world s) ev = Some (world s')
        \<and> ((\<forall>x \<in> set ev. thrown_by x = None)
            \<or> (\<exists>ev1 x e. ev = ev1 @ [x, catch_line e]
                  \<and> (\<forall>y \<in> set ev1. thrown_by y = None) \<and> thrown_by x = Some e))
        \<and> (\<forall>response w1.
              create ext (world s) (request ext [query_turn query] (Some (tools this)))
                = (Inr response, w1) \<longrightarrow>
              length (tool_results ev) \<le> length (tool_uses response)
            \<and> ((\<forall>x \<in> set ev. thrown_by x = None) \<longrightarrow>
                  length (tool_results ev) = length (tool_uses response))
            \<and> ((\<forall>w p. \<exists>r w'. create ext w p = (Inr r, w') \<and> (p_tools p = None \<longrightarrow> r \<noteq> []))
                \<and> (\<forall>w n a. \<exists>r w'. callTool ext w n a = (Inr r, w')) \<longrightarrow>
                  length (tool_results ev) = length (tool_uses response))))"
proof -
  let ?ev = "events_since s s'"
  from assms obtain r s0 ev where run:
    "processQuery_body ext this query s = (r, L', s0)"
    "events_since s s' = ev @ (case r of Inl e \<Rightarrow> [ConsoleError [Str ''Error calling Anthropic API:'', Caught e]] | Inr t \<Rightarrow> [])"
    "trace s0 = trace s @ ev"
    "messages L' = query_turn query # map user_turn (tool_results ev)"
    "map p_messages (model_calls ev) = [query_turn query] # snapshots [query_turn query] (tool_results ev)"
    by (rule processQuery_run_events)
  have res: "tool_results ?ev = tool_results ev"
    and mc: "model_calls ?ev = model_calls ev"
    using run(2) by (simp_all add: tool_results_append model_calls_append split: sum.splits)
  have c1: "messages L' = query_turn query # map user_turn (tool_results ?ev)"
    using run(4) res by simp
  have c2: "map p_messages (model_calls ?ev)
           = map (\<lambda>k. take (Suc k) (messages L')) [0..<length (messages L')]"
    unfolding mc run(5) run(4) snapshots_take
    using prefixes_upto[of "query_turn query" "map user_turn (tool_results ev)"] by simp
  from processQuery_run_trace[OF assms]
  have rp: "replay ext (world s) ?ev = Some (world s')"
    and dj: "(\<exists>t L s''. processQuery_body ext this query s = (Inr t, L, s'')
              \<and> (\<forall>x \<in> set ?ev. thrown_by x = None))
           \<or> (\<exists>ev1 x e L s''. processQuery_body ext this query s = (Inl e, L, s'')
              \<and> ?ev = ev1 @ [x, catch_line e]
              \<and> (\<forall>y \<in> set ev1. thrown_by y = None) \<and> thrown_by x = Some e
              \<and> out = error_text e)"
    by simp_all
  have c4: "(\<forall>x \<in> set ?ev. thrown_by x = None)
            \<or> (\<exists>ev1 x e. ?ev = ev1 @ [x, catch_line e]
                  \<and> (\<forall>y \<in> set ev1. thrown_by y = None) \<and> thrown_by x = Some e)"
    using dj by blast
  have answered: "\<exists>t L s''. processQuery_body ext this query s = (Inr t, L, s'')"
    if "\<forall>x \<in> set ?ev. thrown_by x = None"
    using dj that by fastforce
  have c5: "length (tool_results ?ev) \<le> length (tool_uses response)
            \<and> ((\<forall>x \<in> set ?ev. thrown_by x = None) \<longrightarrow>
                  length (tool_results ?ev) = length (tool_uses response))
            \<and> ((\<forall>w p. \<exists>r w'. create ext w p = (Inr r, w') \<and> (p_tools p = None \<longrightarrow> r \<noteq> []))
                \<and> (\<forall>w n a. \<exists>r w'. callTool ext w n a = (Inr r, w')) \<longrightarrow>
                  length (tool_results ?ev) = length (tool_uses response))"
    if round1: "create ext (world s) (request ext [query_turn query] (Some (tools this))) = (Inr response, w1)"
    for response w1
  proof -
    from processQuery_body_round1_answered[OF round1 run(1)] run(3)
    have le: "length (tool_results ev) \<le> length (tool_uses response)"
      and eq: "(\<exists>out. r = Inr out) \<longrightarrow> length (tool_results ev) = length (tool_uses response)"
      by auto
    have q: "length (tool_results ?ev) = length (tool_uses response)"
      if "\<forall>x \<in> set ?ev. thrown_by x = None"
      using answered[OF that] run(1) eq res by auto
    show ?thesis
      using le res q replay_quiet[OF _ _ rp] by auto
  qed
  from c1 c2 rp c4 c5 show ?thesis
    unfolding Let_def by blast
qed

theorem processQuery_conversation_counterexample:
  "create followup_down_stub (world start)
      (request followup_down_stub [query_turn ''find it''] (Some (tools no_tools))) = (Inr two_tools, 1)
   \<and> length (tool_uses two_tools) = 2
   \<and> messages (fst (snd (processQuery_run followup_down_stub no_tools ''find it'' start)))
       = [query_turn ''find it'', user_turn ''result of search'']
   \<and> length (messages (fst (snd (processQuery_run followup_down_stub no_tools ''find it'' start))))
       \<noteq> Suc (length (tool_uses two_tools))
   \<and> length (model_calls (events_since start
               (snd (snd (processQuery_run followup_down_stub no_tools ''find it'' start))))) = 2"
  by (simp add: followup_down_stub_def run_defs)

theorem processQuery_conversation_witness:
  "\<exists>out L' s'. processQuery_run working_stub no_tools ''find it'' start = (out, L', s')
     \<and> create working_stub (world start)
          (request working_stub [query_turn ''find it''] (Some (tools no_tools))) = (Inr two_tools, 1)
     \<and> length (tool_results (events_since start s')) = 2
     \<and> length (messages L') = 3
     \<and> map p_messages (model_calls (events_since start s'))
         = [take 1 (messages L'), take 2 (messages L'), take 3 (messages L')]"
proof -
  obtain out L' s' where run: "processQuery_run working_stub no_tools ''find it'' start = (out, L', s')"
    by (cases "processQuery_run working_stub no_tools ''find it'' start") auto
  have h1: "create working_stub (world start)
      (request working_stub [query_turn ''find it''] (Some (tools no_tools))) = (Inr two_tools, 1)"
    by (simp add: working_stub_def scripted_def start_def)
  note T = processQuery_conversation[OF run, unfolded Let_def]
  from T h1 working_stub_answers
  have n: "length (tool_results (events_since start s')) = length (tool_uses two_tools)"
    by blast
  from T have m: "messages L' = query_turn ''find it'' # map user_turn (tool_results (events_since start s'))"
    and sn: "map p_messages (model_calls (events_since start s'))
            = map (\<lambda>k. take (Suc k) (messages L')) [0..<length (messages L')]"
    by blast+
  from n have n2: "length (tool_results (events_since start s')) = 2"
    by (simp add: two_tools_def)
  with m have l3: "length (messages L') = 3" by simp
  from sn l3 have "map p_messages (model_calls (events_since start s'))
         = [take 1 (messages L'), take 2 (messages L'), take 3 (messages L')]"
    by (simp add: upt_conv_Cons eval_nat_numeral del: upt_Suc)
  with run h1 n2 l3 show ?thesis
    by (intro exI[of _ out] exI[of _ L'] exI[of _ s'] conjI)
qed

text \<open>
  Claim C4, amended. When the first item of the follow-up response is not a text item, the
  empty string is appended to \<^verbatim>\<open>finalText\<close> after the diagnostic line, so the joined
  output has one more newline than it would have without that entry.
\<close>

theorem tool_use_branch_non_text:
  assumes "callTool ext (world s) n a = (Inr res, w1)"
    and "create ext w1 (request ext (messages L @ [user_turn res]) None) = (Inr (c # cs), w2)"
    and "\<not> is_text c"
  shows "(\<exists>s'. tool_use_branch ext n a L s =
            (None, L\<lparr>finalText := finalText L @ [calling_tool_line ext n a, []],
                     messages := messages L @ [user_turn res]\<rparr>, s'))
       \<and> join [nl] (finalText L @ [calling_tool_line ext n a, []])
           = join [nl] (finalText L @ [calling_tool_line ext n a]) @ [nl]"
proof -
  have "(case c of Text t \<Rightarrow> t | _ \<Rightarrow> []) = []"
    using assms(3) by (cases c) simp_all
  then have "\<exists>s'. tool_use_branch ext n a L s =
            (None, L\<lparr>finalText := finalText L @ [calling_tool_line ext n a, []],
                     messages := messages L @ [user_turn res]\<rparr>, s')"
    using assms(1,2)
    by (simp add: tool_use_branch_def Let_def user_turn_def world_emit)
  moreover have "join [nl] ((finalText L @ [calling_tool_line ext n a]) @ [[]])
           = join [nl] (finalText L @ [calling_tool_line ext n a]) @ [nl] @ []"
    by (rule join_snoc) simp
  ultimately show ?thesis by simp
qed

theorem tool_use_branch_non_text_counterexample:
  "fst (processQuery non_text_stub no_tools ''find it'' start)
     = ''[Calling tool search with args {}]'' @ [nl]
   \<and> fst (processQuery non_text_stub no_tools ''find it'' start)
     \<noteq> join [nl] [''[Calling tool search with args {}]'']"
  by (simp add: non_text_stub_def run_defs)

theorem tool_use_branch_non_text_witness:
  "callTool non_text_stub (world (start\<lparr>world := 1\<rparr>)) ''search'' ''{}'' = (Inr ''result text'', 1)
   \<and> create non_text_stub 1 (request non_text_stub ([query_turn ''find it''] @ [user_turn ''result text'']) None)
       = (Inr [OtherBlock], 2)
   \<and> \<not> is_text (OtherBlock :: string content_block)
   \<and> (\<exists>s'. tool_use_branch non_text_stub ''search'' ''{}''
               \<lparr>messages = [query_turn ''find it''], finalText = []\<rparr> (start\<lparr>world := 1\<rparr>)
             = (None, \<lparr>messages = [query_turn ''find it'', user_turn ''result text''],
                       finalText = [''[Calling tool search with args {}]'', []]\<rparr>, s'))"
proof -
  have h1: "callTool non_text_stub (world (start\<lparr>world := 1\<rparr>)) ''search'' ''{}'' = (Inr ''result text'', 1)"
    by (simp add: non_text_stub_def scripted_def)
  have h2: "create non_text_stub 1
      (request non_text_stub (messages \<lparr>messages = [query_turn ''find it''], finalText = []\<rparr> @ [user_turn ''result text'']) None)
       = (Inr [OtherBlock], 2)"
    by (simp add: non_text_stub_def scripted_def)
  have h3: "\<not> is_text (OtherBlock :: string content_block)"
    by simp
  from tool_use_branch_non_text[OF h1 h2 h3] h1 h2 h3 show ?thesis
    by (simp add: calling_tool_line_def non_text_stub_def scripted_def)
qed

section \<open>Properties of chatLoop\<close>

lemma toLowerCase_quit: "toLowerCase ''quit'' = ''quit''"
  by (simp add: toLowerCase_def lower_char_def)

lemma chatLoop_while_break_iff:
  "fst (chatLoop_while ext this inputs s) = Break \<longleftrightarrow> (\<exists>m \<in> set inputs. toLowerCase m = ''quit'')"
  by (induction ext this inputs s rule: chatLoop_while.induct) (simp_all add: Let_def)

text \<open>
  Claim C5, amended. An iteration leaves the loop, without calling \<^verbatim>\<open>processQuery\<close> and
  without another prompt, exactly when the lower-cased input line equals \<^verbatim>\<open>quit\<close>; the
  line is not trimmed. For every other line the loop goes on: the raw line is passed to
  \<^verbatim>\<open>processQuery\<close> and the returned string is printed, then the next prompt is issued.
  Over a sequence of lines, the loop is left if and only if one of them lower-cases to
  \<^verbatim>\<open>quit\<close>.
\<close>

theorem chatLoop_while_quit:
  "(toLowerCase message = ''quit'' \<longrightarrow>
      chatLoop_while ext this (message # rest) s
        = (Break, emit (RlQuestion query_prompt (Some message)) s))
   \<and> (toLowerCase message \<noteq> ''quit'' \<longrightarrow>
        chatLoop_while ext this (message # rest) s
          = chatLoop_while ext this rest
              (chat_turn ext this message (emit (RlQuestion query_prompt (Some message)) s))
      \<and> fst (chatLoop_while ext this [message] s) = AwaitingInput
      \<and> (let asked = processQuery ext this message
                        (emit (ConsoleLog [Str (''The message is: '' @ message)]) s1)
         in trace (chat_turn ext this message s1)
              = trace (snd asked) @ [ConsoleLog [Str (nl # fst asked)],
                                     ConsoleLog [Str (''The response is: '' @ fst asked)]]))
   \<and> (fst (chatLoop_while ext this inputs s) = Break
        \<longleftrightarrow> (\<exists>m \<in> set inputs. toLowerCase m = ''quit''))"
  by (simp add: chatLoop_while_break_iff Let_def chat_turn_def trace_emit split: prod.splits)

theorem chatLoop_while_quit_counterexample:
  "spec_is_quit '' quit''
   \<and> fst (chatLoop_while text_stub no_tools ['' quit''] start) = AwaitingInput
   \<and> calls_of (events_since start (snd (chatLoop_while text_stub no_tools ['' quit''] start)))
       = [ModelCall (Some [])]"
  by (simp add: spec_is_quit_def trim_def is_space_def toLowerCase_def lower_char_def
      chat_turn_def text_stub_def run_defs)

theorem chatLoop_while_quit_witness:
  "toLowerCase ''QUIT'' = ''quit'' \<and> toLowerCase ''hello'' \<noteq> ''quit''
   \<and> chatLoop_while text_stub no_tools [''hello'', ''QUIT'', ''ignored''] start
       = (Break, emit (RlQuestion query_prompt (Some ''QUIT''))
                  (chat_turn text_stub no_tools ''hello''
                     (emit (RlQuestion query_prompt (Some ''hello'')) start)))
   \<and> calls_of (events_since start
         (snd (chatLoop_while text_stub no_tools [''hello'', ''QUIT'', ''ignored''] start)))
       = [ModelCall (Some [])]"
proof -
  have q: "toLowerCase ''QUIT'' = ''quit''" and h: "toLowerCase ''hello'' \<noteq> ''quit''"
    by code_simp+
  have c: "calls_of (events_since start
         (snd (chatLoop_while text_stub no_tools [''hello'', ''QUIT'', ''ignored''] start)))
       = [ModelCall (Some [])]"
    by (simp add: q h chat_turn_def text_stub_def run_defs)
  from chatLoop_while_quit[of "''hello''" text_stub no_tools "[''QUIT'', ''ignored'']" start]
    chatLoop_while_quit[of "''QUIT''" text_stub no_tools "[''ignored'']"]
    q h c
  show ?thesis by simp
qed

section \<open>Properties of connectToServer\<close>

lemma tool_descriptor_fields:
  "read_prop (tool_descriptor tool) ''input_schema'' = read_prop tool ''inputSchema''
   \<and> read_prop (tool_descriptor tool) ''name'' = read_prop tool ''name''
   \<and> read_prop (tool_descriptor tool) ''description'' = read_prop tool ''description''
   \<and> keys (tool_descriptor tool) = [''name'', ''description'', ''input_schema'']
   \<and> ''inputSchema'' \<notin> set (keys (tool_descriptor tool))"
  by (simp add: tool_descriptor_def read_prop_def keys_def)

lemma endsWith_js_not_py: "endsWith path ''.js'' \<Longrightarrow> \<not> endsWith path ''.py''"
  by (auto simp: endsWith_def)

text \<open>
  Claim C6. When the path has a supported extension, the connection is accepted and the
  discovery call answers, \<^verbatim>\<open>connectToServer\<close> returns and the descriptors stored in
  \<^verbatim>\<open>this.tools\<close> correspond one to one, in order, to the tools discovered; each has exactly
  the keys \<^verbatim>\<open>name\<close>, \<^verbatim>\<open>description\<close>, \<^verbatim>\<open>input_schema\<close> (so no key \<^verbatim>\<open>inputSchema\<close>), and
  its \<^verbatim>\<open>input_schema\<close> is the discovered \<^verbatim>\<open>inputSchema\<close> value, unchanged.
\<close>

theorem connectToServer_input_schema:
  assumes "endsWith path ''.js'' \<or> endsWith path ''.py''"
    and "connect ext (world s)
           \<lparr>command = (if endsWith path ''.py''
                        then (if platform ext = ''win32'' then ''python'' else ''python3'')
                        else execPath ext),
            args = [path], env = transport_env (process_env ext)\<rparr> = (Inr u, w1)"
    and "listTools ext w1 = (Inr discovered, w2)"
  shows "fst (connectToServer ext this path s) = Inr ()
       \<and> ListTools (Inr discovered)
           \<in> set (events_since s (snd (snd (connectToServer ext this path s))))
       \<and> tools (fst (snd (connectToServer ext this path s))) = map tool_descriptor discovered
       \<and> list_all2 (\<lambda>descriptor tool.
             read_prop descriptor ''input_schema'' = read_prop tool ''inputSchema''
           \<and> ''inputSchema'' \<notin> set (keys descriptor)
           \<and> keys descriptor = [''name'', ''description'', ''input_schema'']
           \<and> read_prop descriptor ''name'' = read_prop tool ''name''
           \<and> read_prop descriptor ''description'' = read_prop tool ''description'')
           (tools (fst (snd (connectToServer ext this path s)))) discovered"
proof -
  let ?tp = "\<lparr>command = (if endsWith path ''.py''
                        then (if platform ext = ''win32'' then ''python'' else ''python3'')
                        else execPath ext),
            args = [path], env = transport_env (process_env ext)\<rparr>"
  have run: "connectToServer ext this path s =
      (Inr (), this\<lparr>transport := Some ?tp, tools := map tool_descriptor discovered\<rparr>,
       s\<lparr>world := w2,
         trace := trace s @ [NewTransport ?tp, McpConnect ?tp (Inr u), ListTools (Inr discovered),
           ConsoleLog [Str ''Connected to server with tools:'',
                       Names (map (\<lambda>tool. read_prop tool ''name'')
                                  (map tool_descriptor discovered))]]\<rparr>)"
    using assms
    by (auto simp: connectToServer_def connectToServer_try_def Let_def emit_def)
  have "list_all2 (\<lambda>descriptor tool.
             read_prop descriptor ''input_schema'' = read_prop tool ''inputSchema''
           \<and> ''inputSchema'' \<notin> set (keys descriptor)
           \<and> keys descriptor = [''name'', ''description'', ''input_schema'']
           \<and> read_prop descriptor ''name'' = read_prop tool ''name''
           \<and> read_prop descriptor ''description'' = read_prop tool ''description'')
           (map tool_descriptor discovered) discovered"
    by (simp add: list_all2_map1 list_all2_same tool_descriptor_fields)
  then show ?thesis
    unfolding run by (simp add: events_since_def)
qed

theorem connectToServer_input_schema_witness:
  "endsWith ''server.py'' ''.py''
   \<and> connect two_tool_server (world start)
        \<lparr>command = ''python3'', args = [''server.py''], env = [(''ANTHROPIC_MODEL'', None)]\<rparr>
        = (Inr (), 0)
   \<and> listTools two_tool_server 0
        = (Inr [[(''name'', Some ''search''), (''description'', Some ''Search for information''),
                 (''inputSchema'', Some ''{type: object}'')],
                [(''name'', Some ''fetch''), (''inputSchema'', Some ''{type: object, required: [url]}''),
                 (''annotations'', Some ''{}'')]], 0)
   \<and> fst (connectToServer two_tool_server no_tools ''server.py'' start) = Inr ()
   \<and> tools (fst (snd (connectToServer two_tool_server no_tools ''server.py'' start)))
       = [[(''name'', Some ''search''), (''description'', Some ''Search for information''),
           (''input_schema'', Some ''{type: object}'')],
          [(''name'', Some ''fetch''), (''description'', None),
           (''input_schema'', Some ''{type: object, required: [url]}'')]]"
proof -
  have py: "endsWith ''server.py'' ''.py''"
    by (simp add: endsWith_def)
  have tp: "\<lparr>command = (if endsWith ''server.py'' ''.py''
                        then (if platform two_tool_server = ''win32'' then ''python'' else ''python3'')
                        else execPath two_tool_server),
            args = [''server.py''], env = transport_env (process_env two_tool_server)\<rparr>
        = \<lparr>command = ''python3'', args = [''server.py''], env = [(''ANTHROPIC_MODEL'', None)]\<rparr>"
    by (simp add: py two_tool_server_def text_stub_def scripted_def transport_env_def)
  have c: "connect two_tool_server (world start)
        \<lparr>command = ''python3'', args = [''server.py''], env = [(''ANTHROPIC_MODEL'', None)]\<rparr>
        = (Inr (), 0)"
    by (simp add: two_tool_server_def text_stub_def scripted_def start_def)
  have l: "listTools two_tool_server 0
        = (Inr [[(''name'', Some ''search''), (''description'', Some ''Search for information''),
                 (''inputSchema'', Some ''{type: object}'')],
                [(''name'', Some ''fetch''), (''inputSchema'', Some ''{type: object, required: [url]}''),
                 (''annotations'', Some ''{}'')]], 0)"
    by (simp add: two_tool_server_def)
  from connectToServer_input_schema[of "''server.py''" two_tool_server start "()" 0 _ 0 no_tools,
      unfolded tp, OF disjI2[OF py] c l] py c l
  show ?thesis by (simp add: tool_descriptor_def read_prop_def)
qed

text \<open>
  Claim C7. A script path that ends neither in \<^verbatim>\<open>.js\<close> nor in \<^verbatim>\<open>.py\<close> makes
  \<^verbatim>\<open>connectToServer\<close> throw: the only event is the error line on the console, no transport
  is created and none is connected, and the client object is unchanged. For a \<^verbatim>\<open>.py\<close> path
  the command of the transport is \<^verbatim>\<open>python\<close> on \<^verbatim>\<open>win32\<close> and \<^verbatim>\<open>python3\<close> elsewhere; for a
  \<^verbatim>\<open>.js\<close> path it is \<^verbatim>\<open>process.execPath\<close>.
\<close>

theorem connectToServer_extension:
  "(\<not> endsWith path ''.js'' \<and> \<not> endsWith path ''.py'' \<longrightarrow>
      connectToServer ext this path s
        = (Inl (ErrorObj ''Server script must be a .js or .py file''), this,
           emit (ConsoleError [Str ''Failed to connect to MCP server:'',
                               Caught (ErrorObj ''Server script must be a .js or .py file'')]) s))
   \<and> (endsWith path ''.py'' \<longrightarrow>
        transport (fst (snd (connectToServer ext this path s)))
          = Some \<lparr>command = (if platform ext = ''win32'' then ''python'' else ''python3''),
                  args = [path], env = transport_env (process_env ext)\<rparr>)
   \<and> (endsWith path ''.js'' \<longrightarrow>
        transport (fst (snd (connectToServer ext this path s)))
          = Some \<lparr>command = execPath ext, args = [path], env = transport_env (process_env ext)\<rparr>)"
proof (intro conjI impI)
  assume "\<not> endsWith path ''.js'' \<and> \<not> endsWith path ''.py''"
  then show "connectToServer ext this path s
        = (Inl (ErrorObj ''Server script must be a .js or .py file''), this,
           emit (ConsoleError [Str ''Failed to connect to MCP server:'',
                               Caught (ErrorObj ''Server script must be a .js or .py file'')]) s)"
    by (simp add: connectToServer_def connectToServer_try_def)
next
  assume "endsWith path ''.py''"
  then show "transport (fst (snd (connectToServer ext this path s)))
          = Some \<lparr>command = (if platform ext = ''win32'' then ''python'' else ''python3''),
                  args = [path], env = transport_env (process_env ext)\<rparr>"
    by (simp add: connectToServer_def connectToServer_try_def Let_def
        split: prod.splits sum.splits)
next
  assume js: "endsWith path ''.js''"
  then have "\<not> endsWith path ''.py''" by (rule endsWith_js_not_py)
  with js show "transport (fst (snd (connectToServer ext this path s)))
          = Some \<lparr>command = execPath ext, args = [path], env = transport_env (process_env ext)\<rparr>"
    by (simp add: connectToServer_def connectToServer_try_def Let_def
        split: prod.splits sum.splits)
qed

theorem connectToServer_extension_witness:
  "\<not> endsWith ''server.rb'' ''.js'' \<and> \<not> endsWith ''server.rb'' ''.py''
   \<and> events_since start (snd (snd (connectToServer text_stub no_tools ''server.rb'' start)))
       = [ConsoleError [Str ''Failed to connect to MCP server:'',
                        Caught (ErrorObj ''Server script must be a .js or .py file'')]]
   \<and> transport (fst (snd (connectToServer text_stub no_tools ''server.rb'' start))) = None
   \<and> endsWith ''tools/server.py'' ''.py''
   \<and> map_option command (transport (fst (snd (connectToServer text_stub no_tools ''tools/server.py'' start))))
       = Some ''python3''
   \<and> endsWith ''server.js'' ''.js''
   \<and> map_option command (transport (fst (snd (connectToServer text_stub no_tools ''server.js'' start))))
       = Some ''/usr/bin/node''"
proof -
  have rb: "\<not> endsWith ''server.rb'' ''.js'' \<and> \<not> endsWith ''server.rb'' ''.py''"
    and py: "endsWith ''tools/server.py'' ''.py''" and js: "endsWith ''server.js'' ''.js''"
    by (simp_all add: endsWith_def)
  from connectToServer_extension[of "''server.rb''" text_stub no_tools start]
    connectToServer_extension[of "''tools/server.py''" text_stub no_tools start]
    connectToServer_extension[of "''server.js''" text_stub no_tools start]
    rb py js
  show ?thesis
    by (simp add: events_since_def emit_def start_def no_tools_def text_stub_def scripted_def)
qed

section \<open>Properties of the module body\<close>

text \<open>
  Claim C9, amended. When \<^verbatim>\<open>ANTHROPIC_API_KEY\<close> is absent or is the empty string, the module
  body throws before \<^verbatim>\<open>main\<close> is called: nothing has happened yet, no transport, no
  connection. When it is set to a string that is not empty, \<^verbatim>\<open>main\<close> runs.
\<close>

theorem index_module_credential:
  "(map_of (process_env ext) ''ANTHROPIC_API_KEY'' = None
      \<or> map_of (process_env ext) ''ANTHROPIC_API_KEY'' = Some [] \<longrightarrow>
      index_module ext argv inputs s = (Uncaught (ErrorObj ''ANTHROPIC_API_KEY is not set''), s))
   \<and> ((\<exists>k. map_of (process_env ext) ''ANTHROPIC_API_KEY'' = Some k \<and> k \<noteq> []) \<longrightarrow>
        index_module ext argv inputs s = main ext argv inputs s)"
  by (auto simp: index_module_def falsy_def)

theorem index_module_credential_counterexample:
  "map_of (process_env empty_key_stub) ''ANTHROPIC_API_KEY'' = Some []
   \<and> index_module empty_key_stub argv3 [''quit''] start
       = (Uncaught (ErrorObj ''ANTHROPIC_API_KEY is not set''), start)
   \<and> fst (main empty_key_stub argv3 [''quit''] start) = Exit 0
   \<and> index_module empty_key_stub argv3 [''quit''] start
       \<noteq> main empty_key_stub argv3 [''quit''] start"
  by (simp add: index_module_def falsy_def empty_key_stub_def argv3_def main_def main_finally_def
      cleanup_def chatLoop_def connectToServer_def connectToServer_try_def endsWith_def
      transport_env_def tool_descriptor_def read_prop_def toLowerCase_quit run_defs)

theorem index_module_credential_witness:
  "map_of (process_env text_stub) ''ANTHROPIC_API_KEY'' = None
   \<and> index_module text_stub argv3 [''quit''] start
       = (Uncaught (ErrorObj ''ANTHROPIC_API_KEY is not set''), start)
   \<and> map_of (process_env keyed_stub) ''ANTHROPIC_API_KEY'' = Some ''sk-test''
   \<and> index_module keyed_stub argv3 [''quit''] start = main keyed_stub argv3 [''quit''] start
   \<and> fst (index_module keyed_stub argv3 [''quit''] start) = Exit 0"
proof -
  have a: "map_of (process_env text_stub) ''ANTHROPIC_API_KEY'' = None"
    by (simp add: text_stub_def scripted_def)
  have k: "map_of (process_env keyed_stub) ''ANTHROPIC_API_KEY'' = Some ''sk-test''"
    by (simp add: keyed_stub_def scripted_def)
  have m: "fst (main keyed_stub argv3 [''quit''] start) = Exit 0"
    by (simp add: keyed_stub_def argv3_def main_def main_finally_def
      cleanup_def chatLoop_def connectToServer_def connectToServer_try_def endsWith_def
      transport_env_def tool_descriptor_def read_prop_def toLowerCase_quit run_defs)
  from index_module_credential[of text_stub argv3 "[''quit'']" start]
    index_module_credential[of keyed_stub argv3 "[''quit'']" start] a k m
  show ?thesis by simp
qed

end
